theory Spec2Isabelle
  imports Complex_Main "HOL-Library.Word"
begin

section \<open>The rotor speed controller of AP\_MotorsHeli\_RSC.cpp\<close>

text \<open>
  The controller object is a record; every member function takes the object and returns
  the updated one. The source names its members with a leading underscore
  (\<open>_control_output\<close>); the fields below drop it.

  The C++ \<open>float\<close> is modelled at two levels. The functions of the file are first
  translated with \<open>real\<close> arithmetic: exact, with no rounding, no NaN and no infinity.
  That translation carries the statements about control flow, comparisons, clamps and
  frames, which read the same when every operation is rounded. Where the rounding decides
  a claim (a bound that a rounded sum can pass by one unit in the last place, a closed
  form that a sum of rounded increments does not reach), the functions are translated a
  second time with every arithmetic operation and every conversion rounded to IEEE 754
  binary32 (the \<open>_f32\<close> definitions), and the claim is settled on that translation.
\<close>

subsection \<open>Data\<close>

datatype RotorControlState =
    ROTOR_CONTROL_STOP
  | ROTOR_CONTROL_IDLE
  | ROTOR_CONTROL_ACTIVE

datatype RotorControlMode =
    ROTOR_CONTROL_MODE_DISABLED
  | ROTOR_CONTROL_MODE_SPEED_PASSTHROUGH
  | ROTOR_CONTROL_MODE_SPEED_SETPOINT
  | ROTOR_CONTROL_MODE_OPEN_LOOP_POWER_OUTPUT
  | ROTOR_CONTROL_MODE_GOVERNOR

text \<open>
  Modelled from the spec: the class declaration (AP\_MotorsHeli\_RSC.h) is not part of the
  sources, so the member types are taken from the way AP\_MotorsHeli\_RSC.cpp uses them and
  from the data model of the specification. \<open>power_slewrate\<close>, \<open>governor_rpm_setpoint\<close>
  and \<open>governor_rpm_deadband\<close> have the width of the setter arguments that fill them
  (\<open>uint16_t\<close>, \<open>int16_t\<close>, \<open>int16_t\<close>; the signed ones are read with \<open>sint\<close>);
  \<open>last_update_us\<close> is the \<open>uint64_t\<close> microsecond clock. The times and the PWM
  parameters are integer parameters, compared and subtracted but never overflowing here,
  and are kept as \<open>int\<close>. The external PID controller is an object of an arbitrary type
  \<open>'p\<close>, and \<open>None\<close> is the NULL pointer.
\<close>

record 'p rsc =
  control_mode :: RotorControlMode
  critical_speed :: real
  idle_output :: real
  desired_speed :: real
  control_output :: real
  rotor_ramp_output :: real
  rotor_runup_output :: real
  ramp_time :: int
  runup_time :: int
  runup_complete :: bool
  power_output_low :: real
  power_output_high :: real
  power_output_negc :: real
  power_slewrate :: "16 word"
  load_feedforward :: real
  last_update_us :: "64 word"
  gov_enabled :: bool
  governor_rpm_setpoint :: "16 word"
  governor_rpm_deadband :: "16 word"
  rpm_feedback :: real
  pwm_min :: int
  pwm_max :: int
  pwm_rev :: int
  pid_rotor_gov :: "'p option"

text \<open>
  Modelled from the spec: the PID controller is an external collaborator whose code is not
  part of the sources. The two member functions the controller calls are parameters of the
  model: \<open>set_input_filter_all\<close> stores an error input, \<open>get_pid\<close> returns the PID
  output together with the PID's new internal state.
\<close>

record 'p pid_ops =
  set_input_filter_all :: "real \<Rightarrow> 'p \<Rightarrow> 'p"
  get_pid :: "'p \<Rightarrow> real \<times> 'p"

text \<open>
  What a tick hands to the output channel: \<open>Inr None\<close> when \<open>write_rsc\<close> returns
  without a call of \<open>SRV_Channels::set_output_pwm\<close>, \<open>Inr (Some pwm)\<close> for a call
  with that pulse width, and \<open>Inl\<close> when the conversion of the scaled command to
  \<open>uint16_t\<close> is undefined in C++ (the truncated value is not a \<open>uint16_t\<close>).
\<close>

datatype rsc_fault = Float_To_Uint16_Undefined

type_synonym pwm_write = "rsc_fault + 16 word option"

subsection \<open>Helpers from outside the file\<close>

text \<open>
  Modelled from the spec: \<open>constrain_float\<close> belongs to the maths library, which is not
  part of the sources; the specification calls it a clamp of its first argument to the
  interval given by the other two.
\<close>

definition constrain_float :: "real \<Rightarrow> real \<Rightarrow> real \<Rightarrow> real" where
  "constrain_float amt low high =
     (if amt < low then low else if amt > high then high else amt)"

text \<open>
  The conversion of a \<open>float\<close> to \<open>uint16_t\<close> truncates towards zero and is undefined
  when the truncated value is not representable.
\<close>

definition float_to_uint16 :: "real \<Rightarrow> 16 word option" where
  "float_to_uint16 x =
     (let t = (if 0 \<le> x then \<lfloor>x\<rfloor> else \<lceil>x\<rceil>)
      in if 0 \<le> t \<and> t < 65536 then Some (word_of_int t) else None)"

subsection \<open>Setters\<close>

definition set_power_output_range ::
  "real \<Rightarrow> real \<Rightarrow> real \<Rightarrow> 16 word \<Rightarrow> 'p rsc \<Rightarrow> 'p rsc" where
  "set_power_output_range power_low power_high power_negc slewrate s =
     s\<lparr>power_output_low := power_low,
       power_output_high := power_high,
       power_output_negc := power_negc,
       power_slewrate := slewrate\<rparr>"

definition set_gov_enable ::
  "bool \<Rightarrow> 16 word \<Rightarrow> 16 word \<Rightarrow> real \<Rightarrow> 'p rsc \<Rightarrow> 'p rsc" where
  "set_gov_enable enabled rpm deadband feedback s =
     s\<lparr>gov_enabled := enabled,
       governor_rpm_setpoint := rpm,
       governor_rpm_deadband := deadband,
       rpm_feedback := feedback\<rparr>"

subsection \<open>The ramp and run-up estimators\<close>

text \<open>The sanity check at the head of \<open>update_rotor_ramp\<close>.\<close>

definition sanity_check_ramp_time :: "'p rsc \<Rightarrow> 'p rsc" where
  "sanity_check_ramp_time s = (if ramp_time s \<le> 0 then s\<lparr>ramp_time := 1\<rparr> else s)"

definition update_rotor_ramp :: "real \<Rightarrow> real \<Rightarrow> 'p rsc \<Rightarrow> 'p rsc" where
  "update_rotor_ramp rotor_ramp_input dt s0 =
     (let s = sanity_check_ramp_time s0 in
      if rotor_ramp_output s < rotor_ramp_input then
        let s = (if rotor_ramp_output s < rotor_runup_output s
                 then s\<lparr>rotor_ramp_output := rotor_runup_output s\<rparr> else s);
            s = s\<lparr>rotor_ramp_output := rotor_ramp_output s + dt / real_of_int (ramp_time s)\<rparr>
        in if rotor_ramp_output s > rotor_ramp_input
           then s\<lparr>rotor_ramp_output := rotor_ramp_input\<rparr> else s
      else s\<lparr>rotor_ramp_output := rotor_ramp_input\<rparr>)"

definition get_rotor_speed :: "'p rsc \<Rightarrow> real" where
  "get_rotor_speed s = rotor_runup_output s"

text \<open>The two sanity checks at the head of \<open>update_rotor_runup\<close>, in their order.\<close>

definition sanity_check_runup_time :: "'p rsc \<Rightarrow> 'p rsc" where
  "sanity_check_runup_time s0 =
     (let s = (if runup_time s0 < ramp_time s0 then s0\<lparr>runup_time := ramp_time s0\<rparr> else s0)
      in if runup_time s \<le> 0 then s\<lparr>runup_time := 1\<rparr> else s)"

definition update_rotor_runup :: "real \<Rightarrow> 'p rsc \<Rightarrow> 'p rsc" where
  "update_rotor_runup dt s0 =
     (let s = sanity_check_runup_time s0;
          runup_increment = dt / real_of_int (runup_time s);
          s = (if rotor_runup_output s < rotor_ramp_output s then
                 let s = s\<lparr>rotor_runup_output := rotor_runup_output s + runup_increment\<rparr>
                 in if rotor_runup_output s > rotor_ramp_output s
                    then s\<lparr>rotor_runup_output := rotor_ramp_output s\<rparr> else s
               else
                 let s = s\<lparr>rotor_runup_output := rotor_runup_output s - runup_increment\<rparr>
                 in if rotor_runup_output s < rotor_ramp_output s
                    then s\<lparr>rotor_runup_output := rotor_ramp_output s\<rparr> else s)
      in if control_mode s = ROTOR_CONTROL_MODE_DISABLED then s\<lparr>runup_complete := True\<rparr>
         else
           let s = (if \<not> runup_complete s \<and> rotor_ramp_output s \<ge> 1 \<and> rotor_runup_output s \<ge> 1
                    then s\<lparr>runup_complete := True\<rparr> else s)
           in if runup_complete s \<and> get_rotor_speed s \<le> critical_speed s
              then s\<lparr>runup_complete := False\<rparr> else s)"

subsection \<open>The power calculators\<close>

definition calc_open_loop_power_control_output :: "'p rsc \<Rightarrow> real" where
  "calc_open_loop_power_control_output s =
     (if load_feedforward s \<ge> 0 then
        let range = power_output_high s - power_output_low s
        in idle_output s + (rotor_ramp_output s *
             ((power_output_low s - idle_output s) + (range * load_feedforward s)))
      else
        let range = power_output_negc s - power_output_low s
        in idle_output s + (rotor_ramp_output s *
             ((power_output_low s - idle_output s) - (range * load_feedforward s))))"

text \<open>
  The closed-loop calculator returns its value and the controller object, whose PID may
  have been driven.
\<close>

definition calc_closed_loop_power_control_output ::
  "'p pid_ops \<Rightarrow> 'p rsc \<Rightarrow> real \<times> 'p rsc" where
  "calc_closed_loop_power_control_output pid s =
     (case pid_rotor_gov s of
        None \<Rightarrow> (calc_open_loop_power_control_output s, s)
      | Some p \<Rightarrow>
          let target_rpm = rotor_ramp_output s * real_of_int (sint (governor_rpm_setpoint s));
              pid_input = (target_rpm - rpm_feedback s) / 100;
              (pid_output, p') =
                (if gov_enabled s
                 then get_pid pid (set_input_filter_all pid pid_input p)
                 else (0, set_input_filter_all pid 0 p));
              pid_output = constrain_float pid_output 0 1
          in (pid_output, s\<lparr>pid_rotor_gov := Some p'\<rparr>))"

subsection \<open>The PWM mapper\<close>

definition write_rsc :: "real \<Rightarrow> 'p rsc \<Rightarrow> pwm_write" where
  "write_rsc servo_out s =
     (if control_mode s = ROTOR_CONTROL_MODE_DISABLED then Inr None
      else
        case float_to_uint16 (servo_out * real_of_int (pwm_max s - pwm_min s)) of
          None \<Rightarrow> Inl Float_To_Uint16_Undefined
        | Some pwm \<Rightarrow>
            Inr (Some (if pwm_rev s \<ge> 0
                       then word_of_int (pwm_min s + uint pwm)
                       else word_of_int (pwm_max s - uint pwm))))"

subsection \<open>The tick\<close>

text \<open>
  \<open>now\<close> is the value \<open>AP_HAL::micros64()\<close> returns in this call. The elapsed time
  is one millisecond on the first call and the unsigned 64-bit difference of the clock
  values, in seconds, afterwards.
\<close>

definition elapsed_time :: "64 word \<Rightarrow> 'p rsc \<Rightarrow> real" where
  "elapsed_time now s =
     (if last_update_us s = 0 then 1 / 1000
      else (1 / 1000000) * real (unat (now - last_update_us s)))"

text \<open>
  The \<open>switch\<close> of \<open>output\<close> on the rotor command (the ramp update and the
  assignment of \<open>control_output\<close> in each case). \<open>last_control_output\<close> is the
  snapshot \<open>output\<close> took on entry.
\<close>

definition output_switch ::
  "'p pid_ops \<Rightarrow> RotorControlState \<Rightarrow> real \<Rightarrow> real \<Rightarrow> 'p rsc \<Rightarrow> 'p rsc" where
  "output_switch pid state dt last_control_output s0 =
     (case state of
        ROTOR_CONTROL_STOP \<Rightarrow>
          (let s = update_rotor_ramp 0 dt s0 in s\<lparr>control_output := 0\<rparr>)
      | ROTOR_CONTROL_IDLE \<Rightarrow>
          (let s = update_rotor_ramp 0 dt s0 in s\<lparr>control_output := idle_output s\<rparr>)
      | ROTOR_CONTROL_ACTIVE \<Rightarrow>
          (let s = update_rotor_ramp 1 dt s0 in
           if control_mode s = ROTOR_CONTROL_MODE_SPEED_PASSTHROUGH
              \<or> control_mode s = ROTOR_CONTROL_MODE_SPEED_SETPOINT then
             s\<lparr>control_output :=
                 idle_output s + (rotor_ramp_output s * (desired_speed s - idle_output s))\<rparr>
           else if control_mode s = ROTOR_CONTROL_MODE_OPEN_LOOP_POWER_OUTPUT then
             s\<lparr>control_output := calc_open_loop_power_control_output s\<rparr>
           else if control_mode s = ROTOR_CONTROL_MODE_GOVERNOR then
             if \<not> gov_enabled s then
               s\<lparr>control_output :=
                   idle_output s + (rotor_ramp_output s * (desired_speed s - idle_output s))\<rparr>
             else if \<bar>real_of_int (sint (governor_rpm_setpoint s)) - rpm_feedback s\<bar>
                       < real_of_int (sint (governor_rpm_deadband s)) then
               s\<lparr>control_output := last_control_output\<rparr>
             else
               (let (v, s) = calc_closed_loop_power_control_output pid s
                in s\<lparr>control_output := v\<rparr>)
           else s))"

text \<open>The slew-rate limit of \<open>output\<close>, applied when a positive rate is configured.\<close>

definition output_slew :: "real \<Rightarrow> real \<Rightarrow> 'p rsc \<Rightarrow> 'p rsc" where
  "output_slew dt last_control_output s =
     (if power_slewrate s > 0 then
        let max_delta = dt * real (unat (power_slewrate s)) * (1 / 100)
        in s\<lparr>control_output :=
               constrain_float (control_output s)
                 (last_control_output - max_delta) (last_control_output + max_delta)\<rparr>
      else s)"

text \<open>
  The member function \<open>output\<close> (the name is a keyword of Isabelle, hence the prefix):
  snapshot and elapsed time, the switch, the run-up estimator, the slew-rate limit and
  the write, in the order of the source. It returns the object and what was written.
\<close>

definition rsc_output ::
  "'p pid_ops \<Rightarrow> RotorControlState \<Rightarrow> 64 word \<Rightarrow> 'p rsc \<Rightarrow> 'p rsc \<times> pwm_write" where
  "rsc_output pid state now s0 =
     (let last_control_output = control_output s0;
          dt = elapsed_time now s0;
          s = s0\<lparr>last_update_us := now\<rparr>;
          s = output_switch pid state dt last_control_output s;
          s = update_rotor_runup dt s;
          s = output_slew dt last_control_output s
      in (s, write_rsc (control_output s) s))"

subsection \<open>Binary32 arithmetic\<close>

text \<open>
  The \<open>float\<close> of the target is IEEE 754 binary32, rounded to nearest with ties to
  even. \<open>binary32_round\<close> maps the exact result of an operation to the value the
  operation returns: the nearest multiple of \<open>2 powi (e - 23)\<close>, where \<open>e\<close> is the
  binary exponent of the argument, not below -126 (below \<open>2 powi (- 126)\<close> the values
  are subnormal and the spacing stays \<open>2 powi (- 149)\<close>). The exponent is found by a
  search from 127 downwards. Infinities (results of magnitude \<open>2 powi 128\<close> and
  more) and NaN are outside this model: the members, the clock and the results of the
  PID controller are finite numbers.
\<close>

definition round_half_even :: "real \<Rightarrow> int" where
  "round_half_even x =
     (let f = \<lfloor>x\<rfloor>; r = x - of_int f
      in if r < 1 / 2 then f else if r > 1 / 2 then f + 1 else if even f then f else f + 1)"

fun exp_search :: "nat \<Rightarrow> int \<Rightarrow> real \<Rightarrow> int" where
  "exp_search 0 e a = e"
| "exp_search (Suc n) e a = (if 2 powi e \<le> a then e else exp_search n (e - 1) a)"

definition binary32_exponent :: "real \<Rightarrow> int" where
  "binary32_exponent x = exp_search 253 127 \<bar>x\<bar>"

definition binary32_round :: "real \<Rightarrow> real" where
  "binary32_round x =
     (let q = 2 powi (binary32_exponent x - 23)
      in of_int (round_half_even (x / q)) * q)"

text \<open>
  A value of the type \<open>float\<close>: a real that rounding leaves as it is.
\<close>

definition is_binary32 :: "real \<Rightarrow> bool" where
  "is_binary32 x \<longleftrightarrow> binary32_round x = x"

subsection \<open>The functions with rounded operations\<close>

text \<open>
  The functions of the file once more, in the order and with the control flow of the
  definitions above, every arithmetic operation on \<open>float\<close> rounded: the literals
  \<open>0.001f\<close>, \<open>1.0e-6f\<close> and \<open>0.01f\<close>, the conversions of the integer
  members and of the 64-bit clock difference to \<open>float\<close>, and every sum, difference,
  product and quotient. Comparisons and assignments do not round. \<open>100.0f\<close>, 0 and 1
  are binary32 values and are written as they are. The results of the PID controller are
  the values its two functions return.
\<close>

definition elapsed_time_f32 :: "64 word \<Rightarrow> 'p rsc \<Rightarrow> real" where
  "elapsed_time_f32 now s =
     (if last_update_us s = 0 then binary32_round (1 / 1000)
      else binary32_round
             (binary32_round (1 / 1000000) * binary32_round (real (unat (now - last_update_us s)))))"

definition update_rotor_ramp_f32 :: "real \<Rightarrow> real \<Rightarrow> 'p rsc \<Rightarrow> 'p rsc" where
  "update_rotor_ramp_f32 rotor_ramp_input dt s0 =
     (let s = sanity_check_ramp_time s0 in
      if rotor_ramp_output s < rotor_ramp_input then
        let s = (if rotor_ramp_output s < rotor_runup_output s
                 then s\<lparr>rotor_ramp_output := rotor_runup_output s\<rparr> else s);
            s = s\<lparr>rotor_ramp_output :=
                    binary32_round (rotor_ramp_output s
                      + binary32_round (dt / binary32_round (real_of_int (ramp_time s))))\<rparr>
        in if rotor_ramp_output s > rotor_ramp_input
           then s\<lparr>rotor_ramp_output := rotor_ramp_input\<rparr> else s
      else s\<lparr>rotor_ramp_output := rotor_ramp_input\<rparr>)"

definition update_rotor_runup_f32 :: "real \<Rightarrow> 'p rsc \<Rightarrow> 'p rsc" where
  "update_rotor_runup_f32 dt s0 =
     (let s = sanity_check_runup_time s0;
          runup_increment = binary32_round (dt / binary32_round (real_of_int (runup_time s)));
          s = (if rotor_runup_output s < rotor_ramp_output s then
                 let s = s\<lparr>rotor_runup_output :=
                            binary32_round (rotor_runup_output s + runup_increment)\<rparr>
                 in if rotor_runup_output s > rotor_ramp_output s
                    then s\<lparr>rotor_runup_output := rotor_ramp_output s\<rparr> else s
               else
                 let s = s\<lparr>rotor_runup_output :=
                            binary32_round (rotor_runup_output s - runup_increment)\<rparr>
                 in if rotor_runup_output s < rotor_ramp_output s
                    then s\<lparr>rotor_runup_output := rotor_ramp_output s\<rparr> else s)
      in if control_mode s = ROTOR_CONTROL_MODE_DISABLED then s\<lparr>runup_complete := True\<rparr>
         else
           let s = (if \<not> runup_complete s \<and> rotor_ramp_output s \<ge> 1 \<and> rotor_runup_output s \<ge> 1
                    then s\<lparr>runup_complete := True\<rparr> else s)
           in if runup_complete s \<and> get_rotor_speed s \<le> critical_speed s
              then s\<lparr>runup_complete := False\<rparr> else s)"

definition calc_open_loop_power_control_output_f32 :: "'p rsc \<Rightarrow> real" where
  "calc_open_loop_power_control_output_f32 s =
     (if load_feedforward s \<ge> 0 then
        let range = binary32_round (power_output_high s - power_output_low s)
        in binary32_round (idle_output s + binary32_round (rotor_ramp_output s *
             binary32_round (binary32_round (power_output_low s - idle_output s)
               + binary32_round (range * load_feedforward s))))
      else
        let range = binary32_round (power_output_negc s - power_output_low s)
        in binary32_round (idle_output s + binary32_round (rotor_ramp_output s *
             binary32_round (binary32_round (power_output_low s - idle_output s)
               - binary32_round (range * load_feedforward s)))))"

definition calc_closed_loop_power_control_output_f32 ::
  "'p pid_ops \<Rightarrow> 'p rsc \<Rightarrow> real \<times> 'p rsc" where
  "calc_closed_loop_power_control_output_f32 pid s =
     (case pid_rotor_gov s of
        None \<Rightarrow> (calc_open_loop_power_control_output_f32 s, s)
      | Some p \<Rightarrow>
          let target_rpm = binary32_round (rotor_ramp_output s
                 * binary32_round (real_of_int (sint (governor_rpm_setpoint s))));
              pid_input = binary32_round (binary32_round (target_rpm - rpm_feedback s) / 100);
              (pid_output, p') =
                (if gov_enabled s
                 then get_pid pid (set_input_filter_all pid pid_input p)
                 else (0, set_input_filter_all pid 0 p));
              pid_output = constrain_float pid_output 0 1
          in (pid_output, s\<lparr>pid_rotor_gov := Some p'\<rparr>))"

definition write_rsc_f32 :: "real \<Rightarrow> 'p rsc \<Rightarrow> pwm_write" where
  "write_rsc_f32 servo_out s =
     (if control_mode s = ROTOR_CONTROL_MODE_DISABLED then Inr None
      else
        case float_to_uint16
               (binary32_round
                  (servo_out * binary32_round (real_of_int (pwm_max s - pwm_min s)))) of
          None \<Rightarrow> Inl Float_To_Uint16_Undefined
        | Some pwm \<Rightarrow>
            Inr (Some (if pwm_rev s \<ge> 0
                       then word_of_int (pwm_min s + uint pwm)
                       else word_of_int (pwm_max s - uint pwm))))"

definition output_switch_f32 ::
  "'p pid_ops \<Rightarrow> RotorControlState \<Rightarrow> real \<Rightarrow> real \<Rightarrow> 'p rsc \<Rightarrow> 'p rsc" where
  "output_switch_f32 pid state dt last_control_output s0 =
     (case state of
        ROTOR_CONTROL_STOP \<Rightarrow>
          (let s = update_rotor_ramp_f32 0 dt s0 in s\<lparr>control_output := 0\<rparr>)
      | ROTOR_CONTROL_IDLE \<Rightarrow>
          (let s = update_rotor_ramp_f32 0 dt s0 in s\<lparr>control_output := idle_output s\<rparr>)
      | ROTOR_CONTROL_ACTIVE \<Rightarrow>
          (let s = update_rotor_ramp_f32 1 dt s0 in
           if control_mode s = ROTOR_CONTROL_MODE_SPEED_PASSTHROUGH
              \<or> control_mode s = ROTOR_CONTROL_MODE_SPEED_SETPOINT then
             s\<lparr>control_output :=
                 binary32_round (idle_output s + binary32_round (rotor_ramp_output s
                   * binary32_round (desired_speed s - idle_output s)))\<rparr>
           else if control_mode s = ROTOR_CONTROL_MODE_OPEN_LOOP_POWER_OUTPUT then
             s\<lparr>control_output := calc_open_loop_power_control_output_f32 s\<rparr>
           else if control_mode s = ROTOR_CONTROL_MODE_GOVERNOR then
             if \<not> gov_enabled s then
               s\<lparr>control_output :=
                   binary32_round (idle_output s + binary32_round (rotor_ramp_output s
                     * binary32_round (desired_speed s - idle_output s)))\<rparr>
             else if \<bar>binary32_round (binary32_round (real_of_int (sint (governor_rpm_setpoint s)))
                         - rpm_feedback s)\<bar>
                       < binary32_round (real_of_int (sint (governor_rpm_deadband s))) then
               s\<lparr>control_output := last_control_output\<rparr>
             else
               (let (v, s) = calc_closed_loop_power_control_output_f32 pid s
                in s\<lparr>control_output := v\<rparr>)
           else s))"

definition output_slew_f32 :: "real \<Rightarrow> real \<Rightarrow> 'p rsc \<Rightarrow> 'p rsc" where
  "output_slew_f32 dt last_control_output s =
     (if power_slewrate s > 0 then
        let max_delta = binary32_round
              (binary32_round (dt * binary32_round (real (unat (power_slewrate s))))
                 * binary32_round (1 / 100))
        in s\<lparr>control_output :=
               constrain_float (control_output s)
                 (binary32_round (last_control_output - max_delta))
                 (binary32_round (last_control_output + max_delta))\<rparr>
      else s)"

definition rsc_output_f32 ::
  "'p pid_ops \<Rightarrow> RotorControlState \<Rightarrow> 64 word \<Rightarrow> 'p rsc \<Rightarrow> 'p rsc \<times> pwm_write" where
  "rsc_output_f32 pid state now s0 =
     (let last_control_output = control_output s0;
          dt = elapsed_time_f32 now s0;
          s = s0\<lparr>last_update_us := now\<rparr>;
          s = output_switch_f32 pid state dt last_control_output s;
          s = update_rotor_runup_f32 dt s;
          s = output_slew_f32 dt last_control_output s
      in (s, write_rsc_f32 (control_output s) s))"

subsection \<open>Runs of the controller\<close>

text \<open>
  What happens to the object between its construction and the end of the flight: ticks
  (calls of \<open>output\<close> with a command and the clock value of the call) and calls of
  the two setters of the file, in any order.
\<close>

datatype rsc_event =
    Tick RotorControlState "64 word"
  | Set_power_output_range real real real "16 word"
  | Set_gov_enable bool "16 word" "16 word" real

fun apply_event :: "'p pid_ops \<Rightarrow> rsc_event \<Rightarrow> 'p rsc \<Rightarrow> 'p rsc" where
  "apply_event pid (Tick state now) s = fst (rsc_output pid state now s)"
| "apply_event pid (Set_power_output_range lo hi negc slew) s =
     set_power_output_range lo hi negc slew s"
| "apply_event pid (Set_gov_enable enabled rpm deadband feedback) s =
     set_gov_enable enabled rpm deadband feedback s"

fun is_tick :: "rsc_event \<Rightarrow> bool" where
  "is_tick (Tick state now) = True"
| "is_tick _ = False"

definition run_events :: "'p pid_ops \<Rightarrow> rsc_event list \<Rightarrow> 'p rsc \<Rightarrow> 'p rsc" where
  "run_events pid es s = foldl (\<lambda>s e. apply_event pid e s) s es"



subsection \<open>Configurations within range\<close>

text \<open>
  The source never clamps the configured fractions. The predicate says that they are
  fractions: idle output, desired speed and the three power levels lie in [0,1] and the
  load feed-forward in [-1,1].
\<close>

definition config_in_range :: "'p rsc \<Rightarrow> bool" where
  "config_in_range s \<longleftrightarrow>
     0 \<le> idle_output s \<and> idle_output s \<le> 1
     \<and> 0 \<le> desired_speed s \<and> desired_speed s \<le> 1
     \<and> 0 \<le> power_output_low s \<and> power_output_low s \<le> 1
     \<and> 0 \<le> power_output_high s \<and> power_output_high s \<le> 1
     \<and> 0 \<le> power_output_negc s \<and> power_output_negc s \<le> 1
     \<and> - 1 \<le> load_feedforward s \<and> load_feedforward s \<le> 1"

text \<open>
  The two fractions that every path but the open-loop calculator combines, and the ticks
  that can call the open-loop calculator: an Active tick in open-loop mode, or in
  governor mode with the governor enabled and without a PID controller (there the
  calculator is called when the RPM error is outside the deadband).
\<close>

definition speed_config_in_range :: "'p rsc \<Rightarrow> bool" where
  "speed_config_in_range s \<longleftrightarrow>
     0 \<le> idle_output s \<and> idle_output s \<le> 1
     \<and> 0 \<le> desired_speed s \<and> desired_speed s \<le> 1"

definition open_loop_tick :: "RotorControlState \<Rightarrow> 'p rsc \<Rightarrow> bool" where
  "open_loop_tick state s \<longleftrightarrow>
     state = ROTOR_CONTROL_ACTIVE
     \<and> (control_mode s = ROTOR_CONTROL_MODE_OPEN_LOOP_POWER_OUTPUT
        \<or> (control_mode s = ROTOR_CONTROL_MODE_GOVERNOR \<and> gov_enabled s
           \<and> pid_rotor_gov s = None))"

subsection \<open>Concrete controllers\<close>

text \<open>
  A proportional controller standing in for the external PID (its state is the last
  input, its output half of it), and a controller object at rest in passthrough mode,
  before its first tick. The other controllers below differ from it in the fields named.
\<close>

definition example_pid :: "real pid_ops" where
  "example_pid = \<lparr>set_input_filter_all = (\<lambda>x p. x), get_pid = (\<lambda>p. (p / 2, p))\<rparr>"

definition rsc_rest :: "real rsc" where
  "rsc_rest =
     \<lparr>control_mode = ROTOR_CONTROL_MODE_SPEED_PASSTHROUGH,
      critical_speed = 1 / 2,
      idle_output = 1 / 10,
      desired_speed = 1,
      control_output = 0,
      rotor_ramp_output = 0,
      rotor_runup_output = 0,
      ramp_time = 2,
      runup_time = 2,
      runup_complete = False,
      power_output_low = 1 / 5,
      power_output_high = 4 / 5,
      power_output_negc = 3 / 5,
      power_slewrate = 0,
      load_feedforward = 0,
      last_update_us = 0,
      gov_enabled = False,
      governor_rpm_setpoint = 1500,
      governor_rpm_deadband = 50,
      rpm_feedback = 0,
      pwm_min = 1000,
      pwm_max = 2000,
      pwm_rev = 1,
      pid_rotor_gov = None\<rparr>"

text \<open>
  A controller at full ramp in passthrough mode whose configured fractions are binary
  fractions, so that no operation of its tick rounds.
\<close>

definition cruise_state :: "real rsc" where
  "cruise_state = rsc_rest\<lparr>idle_output := 1 / 8, desired_speed := 3 / 4,
      rotor_ramp_output := 1, rotor_runup_output := 1, last_update_us := 5000\<rparr>"


definition open_loop_state :: "real rsc" where
  "open_loop_state = rsc_rest\<lparr>control_mode := ROTOR_CONTROL_MODE_OPEN_LOOP_POWER_OUTPUT,
      idle_output := 8589935 / 8589934592, power_output_low := 8455717 / 33554432,
      power_output_high := 1, load_feedforward := 1,
      rotor_ramp_output := 1, rotor_runup_output := 1\<rparr>"

text \<open>A controller holding 70 percent output in governor mode, 20 RPM off its setpoint.\<close>

definition gov_state :: "real rsc" where
  "gov_state = rsc_rest\<lparr>control_mode := ROTOR_CONTROL_MODE_GOVERNOR, gov_enabled := True,
      rpm_feedback := 1480, control_output := 7 / 10, power_slewrate := 50,
      rotor_ramp_output := 1, rotor_runup_output := 1,
      last_update_us := 5000, pid_rotor_gov := Some 3\<rparr>"

text \<open>
  A controller whose critical speed is the full speed, an instant before both ramps reach
  it, and a controller in disabled mode.
\<close>

definition critical_one_state :: "real rsc" where
  "critical_one_state = rsc_rest\<lparr>critical_speed := 1, rotor_ramp_output := 1,
      rotor_runup_output := 9999 / 10000\<rparr>"

definition disabled_state :: "real rsc" where
  "disabled_state = rsc_rest\<lparr>control_mode := ROTOR_CONTROL_MODE_DISABLED,
      control_output := 3 / 10, power_slewrate := 50\<rparr>"

text \<open>
  A controller that has completed its run-up, and a run that stops it, reconfigures the
  governor and idles, in ticks of a tenth of a second.
\<close>

definition complete_state :: "real rsc" where
  "complete_state = rsc_rest\<lparr>rotor_ramp_output := 1, rotor_runup_output := 1,
      runup_complete := True, last_update_us := 1000\<rparr>"

definition stop_then_idle :: "rsc_event list" where
  "stop_then_idle =
     [Tick ROTOR_CONTROL_STOP 101000, Set_gov_enable True 1500 50 1400,
      Tick ROTOR_CONTROL_IDLE 201000]"

text \<open>
  Configurations out of range: an idle output of 200 percent, PWM limits in the wrong
  order, and a negative lower PWM limit.
\<close>

definition overdriven_state :: "real rsc" where
  "overdriven_state = rsc_rest\<lparr>idle_output := 2\<rparr>"



section \<open>What each function changes\<close>

lemma constrain_float_between:
  "low \<le> high \<Longrightarrow> low \<le> constrain_float amt low high \<and> constrain_float amt low high \<le> high"
  by (simp add: constrain_float_def)

lemma constrain_float_self: "0 \<le> d \<Longrightarrow> constrain_float x (x - d) (x + d) = x"
  by (simp add: constrain_float_def)

lemma rsc_rest_fields:
  "control_mode rsc_rest = ROTOR_CONTROL_MODE_SPEED_PASSTHROUGH"
  "critical_speed rsc_rest = 1 / 2"
  "idle_output rsc_rest = 1 / 10"
  "desired_speed rsc_rest = 1"
  "control_output rsc_rest = 0"
  "rotor_ramp_output rsc_rest = 0"
  "rotor_runup_output rsc_rest = 0"
  "ramp_time rsc_rest = 2"
  "runup_time rsc_rest = 2"
  "runup_complete rsc_rest = False"
  "power_output_low rsc_rest = 1 / 5"
  "power_output_high rsc_rest = 4 / 5"
  "power_output_negc rsc_rest = 3 / 5"
  "power_slewrate rsc_rest = 0"
  "load_feedforward rsc_rest = 0"
  "last_update_us rsc_rest = 0"
  "gov_enabled rsc_rest = False"
  "governor_rpm_setpoint rsc_rest = 1500"
  "governor_rpm_deadband rsc_rest = 50"
  "rpm_feedback rsc_rest = 0"
  "pwm_min rsc_rest = 1000"
  "pwm_max rsc_rest = 2000"
  "pwm_rev rsc_rest = 1"
  "pid_rotor_gov rsc_rest = None"
  by (simp_all add: rsc_rest_def)

subsection \<open>The estimators in closed form\<close>

text \<open>
  Each estimator written as one record update: which fields it writes and what it
  writes into them.
\<close>

lemma sanity_check_ramp_time_eq:
  "sanity_check_ramp_time s = s\<lparr>ramp_time := (if ramp_time s \<le> 0 then 1 else ramp_time s)\<rparr>"
  by (simp add: sanity_check_ramp_time_def)

lemma sanity_check_runup_time_eq:
  "sanity_check_runup_time s =
     s\<lparr>runup_time := (if max (runup_time s) (ramp_time s) \<le> 0 then 1
                      else max (runup_time s) (ramp_time s))\<rparr>"
  by (simp add: sanity_check_runup_time_def Let_def max_def)

lemma update_rotor_ramp_eq:
  "update_rotor_ramp t dt s =
     s\<lparr>ramp_time := (if ramp_time s \<le> 0 then 1 else ramp_time s),
       rotor_ramp_output :=
         (if rotor_ramp_output s < t
          then min t (max (rotor_ramp_output s) (rotor_runup_output s)
                      + dt / real_of_int (if ramp_time s \<le> 0 then 1 else ramp_time s))
          else t)\<rparr>"
  by (simp add: update_rotor_ramp_def sanity_check_ramp_time_eq Let_def min_def max_def)

lemma update_rotor_runup_eq:
  assumes rt: "rt = (if max (runup_time s) (ramp_time s) \<le> 0 then 1
                else max (runup_time s) (ramp_time s))"
    and ru: "ru = (if rotor_runup_output s < rotor_ramp_output s
                then min (rotor_ramp_output s) (rotor_runup_output s + dt / real_of_int rt)
                else max (rotor_ramp_output s) (rotor_runup_output s - dt / real_of_int rt))"
  shows "update_rotor_runup dt s =
      s\<lparr>runup_time := rt,
           rotor_runup_output := ru,
           runup_complete :=
             (if control_mode s = ROTOR_CONTROL_MODE_DISABLED then True
              else (runup_complete s \<or> (1 \<le> rotor_ramp_output s \<and> 1 \<le> ru))
                   \<and> \<not> ru \<le> critical_speed s)\<rparr>"
proof -
  have s1: "sanity_check_runup_time s = s\<lparr>runup_time := rt\<rparr>"
    by (simp only: sanity_check_runup_time_eq rt)
  show ?thesis
  proof (cases "rotor_runup_output s < rotor_ramp_output s")
    case True
    then show ?thesis
      unfolding update_rotor_runup_def s1 get_rotor_speed_def ru
      by (intro rsc.equality; simp add: Let_def min_def; fastforce?)
  next
    case False
    then show ?thesis
      unfolding update_rotor_runup_def s1 get_rotor_speed_def ru
      by (intro rsc.equality; simp add: Let_def max_def; fastforce?)
  qed
qed

subsection \<open>The closed-loop calculator\<close>

text \<open>
  It writes the PID object and nothing else.
\<close>

lemma calc_closed_loop_frame:
  "\<exists>p'. snd (calc_closed_loop_power_control_output pid s) = s\<lparr>pid_rotor_gov := p'\<rparr>"
proof (cases "pid_rotor_gov s")
  case None
  then have "snd (calc_closed_loop_power_control_output pid s) = s\<lparr>pid_rotor_gov := pid_rotor_gov s\<rparr>"
    by (simp add: calc_closed_loop_power_control_output_def)
  then show ?thesis by blast
next
  case (Some p)
  then show ?thesis
    by (auto simp add: calc_closed_loop_power_control_output_def Let_def split: prod.splits)
qed

lemma calc_closed_loop_range:
  "pid_rotor_gov s \<noteq> None \<Longrightarrow>
   0 \<le> fst (calc_closed_loop_power_control_output pid s)
   \<and> fst (calc_closed_loop_power_control_output pid s) \<le> 1"
  by (auto simp add: calc_closed_loop_power_control_output_def Let_def constrain_float_def
      split: prod.splits)

lemma calc_closed_loop_no_pid:
  "pid_rotor_gov s = None \<Longrightarrow>
   calc_closed_loop_power_control_output pid s = (calc_open_loop_power_control_output s, s)"
  by (simp add: calc_closed_loop_power_control_output_def)

lemma calc_closed_loop_fields:
  "control_mode (snd (calc_closed_loop_power_control_output pid s)) = control_mode s"
  "critical_speed (snd (calc_closed_loop_power_control_output pid s)) = critical_speed s"
  "idle_output (snd (calc_closed_loop_power_control_output pid s)) = idle_output s"
  "desired_speed (snd (calc_closed_loop_power_control_output pid s)) = desired_speed s"
  "control_output (snd (calc_closed_loop_power_control_output pid s)) = control_output s"
  "rotor_ramp_output (snd (calc_closed_loop_power_control_output pid s)) = rotor_ramp_output s"
  "rotor_runup_output (snd (calc_closed_loop_power_control_output pid s)) = rotor_runup_output s"
  "ramp_time (snd (calc_closed_loop_power_control_output pid s)) = ramp_time s"
  "runup_time (snd (calc_closed_loop_power_control_output pid s)) = runup_time s"
  "runup_complete (snd (calc_closed_loop_power_control_output pid s)) = runup_complete s"
  "power_output_low (snd (calc_closed_loop_power_control_output pid s)) = power_output_low s"
  "power_output_high (snd (calc_closed_loop_power_control_output pid s)) = power_output_high s"
  "power_output_negc (snd (calc_closed_loop_power_control_output pid s)) = power_output_negc s"
  "power_slewrate (snd (calc_closed_loop_power_control_output pid s)) = power_slewrate s"
  "load_feedforward (snd (calc_closed_loop_power_control_output pid s)) = load_feedforward s"
  "last_update_us (snd (calc_closed_loop_power_control_output pid s)) = last_update_us s"
  "gov_enabled (snd (calc_closed_loop_power_control_output pid s)) = gov_enabled s"
  "governor_rpm_setpoint (snd (calc_closed_loop_power_control_output pid s)) = governor_rpm_setpoint s"
  "governor_rpm_deadband (snd (calc_closed_loop_power_control_output pid s)) = governor_rpm_deadband s"
  "rpm_feedback (snd (calc_closed_loop_power_control_output pid s)) = rpm_feedback s"
  "pwm_min (snd (calc_closed_loop_power_control_output pid s)) = pwm_min s"
  "pwm_max (snd (calc_closed_loop_power_control_output pid s)) = pwm_max s"
  "pwm_rev (snd (calc_closed_loop_power_control_output pid s)) = pwm_rev s"
proof -
  obtain p' where "snd (calc_closed_loop_power_control_output pid s) = s\<lparr>pid_rotor_gov := p'\<rparr>"
    using calc_closed_loop_frame by blast
  then show
  "control_mode (snd (calc_closed_loop_power_control_output pid s)) = control_mode s"
  "critical_speed (snd (calc_closed_loop_power_control_output pid s)) = critical_speed s"
  "idle_output (snd (calc_closed_loop_power_control_output pid s)) = idle_output s"
  "desired_speed (snd (calc_closed_loop_power_control_output pid s)) = desired_speed s"
  "control_output (snd (calc_closed_loop_power_control_output pid s)) = control_output s"
  "rotor_ramp_output (snd (calc_closed_loop_power_control_output pid s)) = rotor_ramp_output s"
  "rotor_runup_output (snd (calc_closed_loop_power_control_output pid s)) = rotor_runup_output s"
  "ramp_time (snd (calc_closed_loop_power_control_output pid s)) = ramp_time s"
  "runup_time (snd (calc_closed_loop_power_control_output pid s)) = runup_time s"
  "runup_complete (snd (calc_closed_loop_power_control_output pid s)) = runup_complete s"
  "power_output_low (snd (calc_closed_loop_power_control_output pid s)) = power_output_low s"
  "power_output_high (snd (calc_closed_loop_power_control_output pid s)) = power_output_high s"
  "power_output_negc (snd (calc_closed_loop_power_control_output pid s)) = power_output_negc s"
  "power_slewrate (snd (calc_closed_loop_power_control_output pid s)) = power_slewrate s"
  "load_feedforward (snd (calc_closed_loop_power_control_output pid s)) = load_feedforward s"
  "last_update_us (snd (calc_closed_loop_power_control_output pid s)) = last_update_us s"
  "gov_enabled (snd (calc_closed_loop_power_control_output pid s)) = gov_enabled s"
  "governor_rpm_setpoint (snd (calc_closed_loop_power_control_output pid s)) = governor_rpm_setpoint s"
  "governor_rpm_deadband (snd (calc_closed_loop_power_control_output pid s)) = governor_rpm_deadband s"
  "rpm_feedback (snd (calc_closed_loop_power_control_output pid s)) = rpm_feedback s"
  "pwm_min (snd (calc_closed_loop_power_control_output pid s)) = pwm_min s"
  "pwm_max (snd (calc_closed_loop_power_control_output pid s)) = pwm_max s"
  "pwm_rev (snd (calc_closed_loop_power_control_output pid s)) = pwm_rev s"
    by simp_all
qed

subsection \<open>The stages of the tick\<close>

lemma output_switch_frame:
  "control_mode (output_switch pid st dt lc s) = control_mode s"
  "critical_speed (output_switch pid st dt lc s) = critical_speed s"
  "idle_output (output_switch pid st dt lc s) = idle_output s"
  "desired_speed (output_switch pid st dt lc s) = desired_speed s"
  "rotor_runup_output (output_switch pid st dt lc s) = rotor_runup_output s"
  "runup_time (output_switch pid st dt lc s) = runup_time s"
  "runup_complete (output_switch pid st dt lc s) = runup_complete s"
  "power_output_low (output_switch pid st dt lc s) = power_output_low s"
  "power_output_high (output_switch pid st dt lc s) = power_output_high s"
  "power_output_negc (output_switch pid st dt lc s) = power_output_negc s"
  "power_slewrate (output_switch pid st dt lc s) = power_slewrate s"
  "load_feedforward (output_switch pid st dt lc s) = load_feedforward s"
  "last_update_us (output_switch pid st dt lc s) = last_update_us s"
  "gov_enabled (output_switch pid st dt lc s) = gov_enabled s"
  "governor_rpm_setpoint (output_switch pid st dt lc s) = governor_rpm_setpoint s"
  "governor_rpm_deadband (output_switch pid st dt lc s) = governor_rpm_deadband s"
  "rpm_feedback (output_switch pid st dt lc s) = rpm_feedback s"
  "pwm_min (output_switch pid st dt lc s) = pwm_min s"
  "pwm_max (output_switch pid st dt lc s) = pwm_max s"
  "pwm_rev (output_switch pid st dt lc s) = pwm_rev s"
  "ramp_time (output_switch pid st dt lc s) = ramp_time (update_rotor_ramp 0 dt s)"
  "rotor_ramp_output (output_switch pid st dt lc s) =
     rotor_ramp_output (update_rotor_ramp (if st = ROTOR_CONTROL_ACTIVE then 1 else 0) dt s)"
  by (cases st; simp add: output_switch_def Let_def case_prod_beta calc_closed_loop_fields;
      simp add: update_rotor_ramp_eq)+

lemma update_rotor_runup_frame:
  "control_mode (update_rotor_runup dt s) = control_mode s"
  "critical_speed (update_rotor_runup dt s) = critical_speed s"
  "idle_output (update_rotor_runup dt s) = idle_output s"
  "desired_speed (update_rotor_runup dt s) = desired_speed s"
  "control_output (update_rotor_runup dt s) = control_output s"
  "rotor_ramp_output (update_rotor_runup dt s) = rotor_ramp_output s"
  "ramp_time (update_rotor_runup dt s) = ramp_time s"
  "power_output_low (update_rotor_runup dt s) = power_output_low s"
  "power_output_high (update_rotor_runup dt s) = power_output_high s"
  "power_output_negc (update_rotor_runup dt s) = power_output_negc s"
  "power_slewrate (update_rotor_runup dt s) = power_slewrate s"
  "load_feedforward (update_rotor_runup dt s) = load_feedforward s"
  "last_update_us (update_rotor_runup dt s) = last_update_us s"
  "gov_enabled (update_rotor_runup dt s) = gov_enabled s"
  "governor_rpm_setpoint (update_rotor_runup dt s) = governor_rpm_setpoint s"
  "governor_rpm_deadband (update_rotor_runup dt s) = governor_rpm_deadband s"
  "rpm_feedback (update_rotor_runup dt s) = rpm_feedback s"
  "pwm_min (update_rotor_runup dt s) = pwm_min s"
  "pwm_max (update_rotor_runup dt s) = pwm_max s"
  "pwm_rev (update_rotor_runup dt s) = pwm_rev s"
  "pid_rotor_gov (update_rotor_runup dt s) = pid_rotor_gov s"
  by (simp_all add: update_rotor_runup_eq [OF refl refl])

lemma output_slew_eq:
  "output_slew dt lc s =
     s\<lparr>control_output :=
         (if power_slewrate s > 0
          then constrain_float (control_output s)
                 (lc - dt * real (unat (power_slewrate s)) * (1 / 100))
                 (lc + dt * real (unat (power_slewrate s)) * (1 / 100))
          else control_output s)\<rparr>"
  by (simp add: output_slew_def Let_def)

lemma unsigned_real_nonneg: "0 \<le> (unsigned w :: real)"
  by (metis of_nat_unat of_nat_0_le_iff)

lemma elapsed_time_nonneg: "0 \<le> elapsed_time now s"
  by (simp add: elapsed_time_def unsigned_real_nonneg)

lemma output_switch_control_output:
  "control_output (output_switch pid ROTOR_CONTROL_STOP dt lc s) = 0"
  "control_output (output_switch pid ROTOR_CONTROL_IDLE dt lc s) = idle_output s"
  by (simp_all add: output_switch_def Let_def update_rotor_ramp_eq)

lemma rsc_output_fst:
  "fst (rsc_output pid st now s) =
     output_slew (elapsed_time now s) (control_output s)
       (update_rotor_runup (elapsed_time now s)
          (output_switch pid st (elapsed_time now s) (control_output s)
             (s\<lparr>last_update_us := now\<rparr>)))"
  by (simp add: rsc_output_def Let_def)

lemma write_rsc_cong:
  "control_mode s' = control_mode s \<Longrightarrow> pwm_min s' = pwm_min s \<Longrightarrow> pwm_max s' = pwm_max s
   \<Longrightarrow> pwm_rev s' = pwm_rev s \<Longrightarrow> write_rsc v s' = write_rsc v s"
  by (simp add: write_rsc_def split: option.splits)

lemma rsc_output_snd:
  "snd (rsc_output pid st now s) = write_rsc (control_output (fst (rsc_output pid st now s))) s"
  unfolding rsc_output_def Let_def snd_conv fst_conv
  by (rule write_rsc_cong) (simp_all add: output_slew_eq update_rotor_runup_frame output_switch_frame)

lemma rsc_output_control_output:
  "control_output (fst (rsc_output pid st now s)) =
     (if power_slewrate s > 0
      then constrain_float
             (control_output (output_switch pid st (elapsed_time now s) (control_output s)
                (s\<lparr>last_update_us := now\<rparr>)))
             (control_output s - elapsed_time now s * real (unat (power_slewrate s)) * (1 / 100))
             (control_output s + elapsed_time now s * real (unat (power_slewrate s)) * (1 / 100))
      else control_output (output_switch pid st (elapsed_time now s) (control_output s)
                (s\<lparr>last_update_us := now\<rparr>)))"
  by (simp add: rsc_output_fst output_slew_eq update_rotor_runup_frame output_switch_frame)

lemma update_rotor_runup_fields:
  "runup_time (update_rotor_runup dt s) =
     (if max (runup_time s) (ramp_time s) \<le> 0 then 1 else max (runup_time s) (ramp_time s))"
  "rotor_runup_output (update_rotor_runup dt s) =
     (if rotor_runup_output s < rotor_ramp_output s
      then min (rotor_ramp_output s)
             (rotor_runup_output s + dt / real_of_int (runup_time (update_rotor_runup dt s)))
      else max (rotor_ramp_output s)
             (rotor_runup_output s - dt / real_of_int (runup_time (update_rotor_runup dt s))))"
  "runup_complete (update_rotor_runup dt s) =
     (if control_mode s = ROTOR_CONTROL_MODE_DISABLED then True
      else (runup_complete s
            \<or> (1 \<le> rotor_ramp_output s \<and> 1 \<le> rotor_runup_output (update_rotor_runup dt s)))
           \<and> \<not> rotor_runup_output (update_rotor_runup dt s) \<le> critical_speed s)"
  by (simp_all add: update_rotor_runup_eq [OF refl refl])

lemma update_rotor_runup_cong:
  assumes "runup_time s' = runup_time s" and "ramp_time s' = ramp_time s"
    and "rotor_runup_output s' = rotor_runup_output s"
    and "rotor_ramp_output s' = rotor_ramp_output s"
    and "control_mode s' = control_mode s" and "runup_complete s' = runup_complete s"
    and "critical_speed s' = critical_speed s"
  shows "runup_time (update_rotor_runup dt s') = runup_time (update_rotor_runup dt s)"
    and "rotor_runup_output (update_rotor_runup dt s') = rotor_runup_output (update_rotor_runup dt s)"
    and "runup_complete (update_rotor_runup dt s') = runup_complete (update_rotor_runup dt s)"
proof -
  show 1: "runup_time (update_rotor_runup dt s') = runup_time (update_rotor_runup dt s)"
    by (simp only: update_rotor_runup_fields(1) assms)
  show 2: "rotor_runup_output (update_rotor_runup dt s') = rotor_runup_output (update_rotor_runup dt s)"
    by (subst (1 2) update_rotor_runup_fields(2)) (simp only: assms 1)
  show "runup_complete (update_rotor_runup dt s') = runup_complete (update_rotor_runup dt s)"
    by (subst (1 2) update_rotor_runup_fields(3)) (simp only: assms 2)
qed

lemma output_switch_as_ramp:
  fixes s :: "'p rsc"
  defines "t st \<equiv> (if st = ROTOR_CONTROL_ACTIVE then 1 else 0 :: real)"
  shows "runup_time (output_switch pid st dt lc (s\<lparr>last_update_us := now\<rparr>))
           = runup_time (update_rotor_ramp (t st) dt s)"
    and "ramp_time (output_switch pid st dt lc (s\<lparr>last_update_us := now\<rparr>))
           = ramp_time (update_rotor_ramp (t st) dt s)"
    and "rotor_runup_output (output_switch pid st dt lc (s\<lparr>last_update_us := now\<rparr>))
           = rotor_runup_output (update_rotor_ramp (t st) dt s)"
    and "rotor_ramp_output (output_switch pid st dt lc (s\<lparr>last_update_us := now\<rparr>))
           = rotor_ramp_output (update_rotor_ramp (t st) dt s)"
    and "control_mode (output_switch pid st dt lc (s\<lparr>last_update_us := now\<rparr>))
           = control_mode (update_rotor_ramp (t st) dt s)"
    and "runup_complete (output_switch pid st dt lc (s\<lparr>last_update_us := now\<rparr>))
           = runup_complete (update_rotor_ramp (t st) dt s)"
    and "critical_speed (output_switch pid st dt lc (s\<lparr>last_update_us := now\<rparr>))
           = critical_speed (update_rotor_ramp (t st) dt s)"
  unfolding t_def by (simp_all add: output_switch_frame update_rotor_ramp_eq)

lemma rsc_output_estimators:
  "rotor_ramp_output (fst (rsc_output pid st now s)) =
     rotor_ramp_output
       (update_rotor_ramp (if st = ROTOR_CONTROL_ACTIVE then 1 else 0) (elapsed_time now s) s)"
  "ramp_time (fst (rsc_output pid st now s)) = (if ramp_time s \<le> 0 then 1 else ramp_time s)"
  "rotor_runup_output (fst (rsc_output pid st now s)) =
     rotor_runup_output
       (update_rotor_runup (elapsed_time now s)
          (update_rotor_ramp (if st = ROTOR_CONTROL_ACTIVE then 1 else 0) (elapsed_time now s) s))"
  "runup_time (fst (rsc_output pid st now s)) =
     runup_time
       (update_rotor_runup (elapsed_time now s)
          (update_rotor_ramp (if st = ROTOR_CONTROL_ACTIVE then 1 else 0) (elapsed_time now s) s))"
  "runup_complete (fst (rsc_output pid st now s)) =
     runup_complete
       (update_rotor_runup (elapsed_time now s)
          (update_rotor_ramp (if st = ROTOR_CONTROL_ACTIVE then 1 else 0) (elapsed_time now s) s))"
proof -
  let ?dt = "elapsed_time now s"
  let ?sw = "output_switch pid st ?dt (control_output s) (s\<lparr>last_update_us := now\<rparr>)"
  let ?rp = "update_rotor_ramp (if st = ROTOR_CONTROL_ACTIVE then 1 else 0) ?dt s"
  have sw: "runup_time ?sw = runup_time ?rp" "ramp_time ?sw = ramp_time ?rp"
    "rotor_runup_output ?sw = rotor_runup_output ?rp"
    "rotor_ramp_output ?sw = rotor_ramp_output ?rp"
    "control_mode ?sw = control_mode ?rp" "runup_complete ?sw = runup_complete ?rp"
    "critical_speed ?sw = critical_speed ?rp"
    by (rule output_switch_as_ramp)+
  show "rotor_ramp_output (fst (rsc_output pid st now s)) = rotor_ramp_output ?rp"
    by (simp add: rsc_output_fst output_slew_eq update_rotor_runup_frame sw)
  show "ramp_time (fst (rsc_output pid st now s)) = (if ramp_time s \<le> 0 then 1 else ramp_time s)"
    by (simp add: rsc_output_fst output_slew_eq update_rotor_runup_frame sw)
      (simp add: update_rotor_ramp_eq)
  have "rotor_runup_output (fst (rsc_output pid st now s)) =
          rotor_runup_output (update_rotor_runup ?dt ?sw)"
    by (simp add: rsc_output_fst output_slew_eq)
  also have "\<dots> = rotor_runup_output (update_rotor_runup ?dt ?rp)"
    by (rule update_rotor_runup_cong) (rule sw)+
  finally show "rotor_runup_output (fst (rsc_output pid st now s)) =
          rotor_runup_output (update_rotor_runup ?dt ?rp)" .
  have "runup_time (fst (rsc_output pid st now s)) = runup_time (update_rotor_runup ?dt ?sw)"
    by (simp add: rsc_output_fst output_slew_eq)
  also have "\<dots> = runup_time (update_rotor_runup ?dt ?rp)"
    by (rule update_rotor_runup_cong) (rule sw)+
  finally show "runup_time (fst (rsc_output pid st now s)) =
     runup_time (update_rotor_runup ?dt ?rp)" .
  have "runup_complete (fst (rsc_output pid st now s)) =
          runup_complete (update_rotor_runup ?dt ?sw)"
    by (simp add: rsc_output_fst output_slew_eq)
  also have "\<dots> = runup_complete (update_rotor_runup ?dt ?rp)"
    by (rule update_rotor_runup_cong) (rule sw)+
  finally show "runup_complete (fst (rsc_output pid st now s)) =
          runup_complete (update_rotor_runup ?dt ?rp)" .
qed

lemma rsc_output_frame:
  "control_mode (fst (rsc_output pid st now s)) = control_mode s"
  "critical_speed (fst (rsc_output pid st now s)) = critical_speed s"
  "idle_output (fst (rsc_output pid st now s)) = idle_output s"
  "desired_speed (fst (rsc_output pid st now s)) = desired_speed s"
  "power_output_low (fst (rsc_output pid st now s)) = power_output_low s"
  "power_output_high (fst (rsc_output pid st now s)) = power_output_high s"
  "power_output_negc (fst (rsc_output pid st now s)) = power_output_negc s"
  "power_slewrate (fst (rsc_output pid st now s)) = power_slewrate s"
  "load_feedforward (fst (rsc_output pid st now s)) = load_feedforward s"
  "last_update_us (fst (rsc_output pid st now s)) = now"
  "gov_enabled (fst (rsc_output pid st now s)) = gov_enabled s"
  "governor_rpm_setpoint (fst (rsc_output pid st now s)) = governor_rpm_setpoint s"
  "governor_rpm_deadband (fst (rsc_output pid st now s)) = governor_rpm_deadband s"
  "rpm_feedback (fst (rsc_output pid st now s)) = rpm_feedback s"
  "pwm_min (fst (rsc_output pid st now s)) = pwm_min s"
  "pwm_max (fst (rsc_output pid st now s)) = pwm_max s"
  "pwm_rev (fst (rsc_output pid st now s)) = pwm_rev s"
  by (simp_all add: rsc_output_fst output_slew_eq update_rotor_runup_frame output_switch_frame)

lemma max_delta_nonneg: "0 \<le> elapsed_time now s * (unsigned (w :: 16 word) :: real)"
  by (simp add: elapsed_time_nonneg unsigned_real_nonneg)

lemma output_switch_active_control_output:
  "control_output (output_switch pid ROTOR_CONTROL_ACTIVE dt lc s) =
     (let s1 = update_rotor_ramp 1 dt s in
      if control_mode s = ROTOR_CONTROL_MODE_SPEED_PASSTHROUGH
         \<or> control_mode s = ROTOR_CONTROL_MODE_SPEED_SETPOINT
      then idle_output s + rotor_ramp_output s1 * (desired_speed s - idle_output s)
      else if control_mode s = ROTOR_CONTROL_MODE_OPEN_LOOP_POWER_OUTPUT
      then calc_open_loop_power_control_output s1
      else if control_mode s = ROTOR_CONTROL_MODE_GOVERNOR
      then (if \<not> gov_enabled s
            then idle_output s + rotor_ramp_output s1 * (desired_speed s - idle_output s)
            else if \<bar>real_of_int (sint (governor_rpm_setpoint s)) - rpm_feedback s\<bar>
                      < real_of_int (sint (governor_rpm_deadband s))
            then lc
            else fst (calc_closed_loop_power_control_output pid s1))
      else control_output s)"
  by (simp add: output_switch_def Let_def case_prod_beta update_rotor_ramp_eq)


subsection \<open>Bounds of the estimators\<close>

lemma rotor_ramp_output_le_target:
  "rotor_ramp_output (update_rotor_ramp t dt s) \<le> t"
  by (simp add: update_rotor_ramp_eq)

lemma rotor_ramp_output_nonneg:
  assumes "0 \<le> dt" and "0 \<le> rotor_ramp_output s" and "0 \<le> t"
  shows "0 \<le> rotor_ramp_output (update_rotor_ramp t dt s)"
proof -
  have "0 \<le> dt / real_of_int (if ramp_time s \<le> 0 then 1 else ramp_time s)"
    using assms(1) by simp
  then show ?thesis
    using assms(2,3) by (simp add: update_rotor_ramp_eq)
qed

lemma runup_time_ge_one: "1 \<le> runup_time (update_rotor_runup dt s)"
  by (simp add: update_rotor_runup_fields(1) max_def)

lemma runup_increment_nonneg:
  "0 \<le> dt \<Longrightarrow> 0 \<le> dt / real_of_int (runup_time (update_rotor_runup dt s))"
  using runup_time_ge_one [of dt s] by simp

lemma rotor_runup_output_le_one:
  assumes "0 \<le> dt" and "rotor_runup_output s \<le> 1" and "rotor_ramp_output s \<le> 1"
  shows "rotor_runup_output (update_rotor_runup dt s) \<le> 1"
  using assms runup_increment_nonneg [OF assms(1), of s]
  by (subst update_rotor_runup_fields(2)) auto

lemma rotor_runup_output_nonneg:
  assumes "0 \<le> dt" and "0 \<le> rotor_runup_output s" and "0 \<le> rotor_ramp_output s"
  shows "0 \<le> rotor_runup_output (update_rotor_runup dt s)"
  using assms runup_increment_nonneg [OF assms(1), of s]
  by (subst update_rotor_runup_fields(2)) auto

lemma ramp_target_le_one:
  "rotor_ramp_output (update_rotor_ramp (if st = ROTOR_CONTROL_ACTIVE then 1 else 0) dt s) \<le> 1"
proof (cases "st = ROTOR_CONTROL_ACTIVE")
  case True
  then show ?thesis using rotor_ramp_output_le_target [of 1 dt s] by simp
next
  case False
  then show ?thesis using rotor_ramp_output_le_target [of 0 dt s] by simp
qed

lemma update_rotor_ramp_runup_unchanged:
  "rotor_runup_output (update_rotor_ramp t dt s) = rotor_runup_output s"
  by (simp add: update_rotor_ramp_eq)

lemma rsc_output_ramp_le_one: "rotor_ramp_output (fst (rsc_output pid st now s)) \<le> 1"
  unfolding rsc_output_estimators(1) by (rule ramp_target_le_one)

lemma rsc_output_ramp_nonneg:
  "0 \<le> rotor_ramp_output s \<Longrightarrow> 0 \<le> rotor_ramp_output (fst (rsc_output pid st now s))"
  unfolding rsc_output_estimators(1)
  by (rule rotor_ramp_output_nonneg) (simp_all add: elapsed_time_nonneg)

lemma rsc_output_runup_le_one:
  "rotor_runup_output s \<le> 1 \<Longrightarrow> rotor_runup_output (fst (rsc_output pid st now s)) \<le> 1"
  unfolding rsc_output_estimators(3)
  by (rule rotor_runup_output_le_one)
     (simp_all only: elapsed_time_nonneg update_rotor_ramp_runup_unchanged ramp_target_le_one)

lemma rsc_output_runup_nonneg:
  "0 \<le> rotor_runup_output s \<Longrightarrow> 0 \<le> rotor_ramp_output s
   \<Longrightarrow> 0 \<le> rotor_runup_output (fst (rsc_output pid st now s))"
  unfolding rsc_output_estimators(3)
  by (intro rotor_runup_output_nonneg rotor_ramp_output_nonneg)
     (simp_all add: elapsed_time_nonneg update_rotor_ramp_runup_unchanged)

subsection \<open>Runs and the completion flag\<close>

lemma run_events_snoc:
  "run_events pid (es @ [e]) s = apply_event pid e (run_events pid es s)"
  by (simp add: run_events_def)

lemma apply_event_critical_speed:
  "critical_speed (apply_event pid e s) = critical_speed s"
  by (cases e) (simp_all add: rsc_output_frame set_power_output_range_def set_gov_enable_def)

lemma run_events_critical_speed:
  "critical_speed (run_events pid es s) = critical_speed s"
  by (induction es rule: rev_induct)
     (simp_all add: run_events_snoc apply_event_critical_speed, simp add: run_events_def)

lemma tick_keeps_runup_complete:
  assumes "runup_complete s"
    and "critical_speed s < rotor_runup_output (fst (rsc_output pid st now s))"
  shows "runup_complete (fst (rsc_output pid st now s))"
proof -
  let ?rp = "update_rotor_ramp (if st = ROTOR_CONTROL_ACTIVE then 1 else 0) (elapsed_time now s) s"
  have 1: "runup_complete ?rp" "critical_speed ?rp = critical_speed s"
    using assms(1) by (simp_all add: update_rotor_ramp_eq)
  have 2: "critical_speed s < rotor_runup_output (update_rotor_runup (elapsed_time now s) ?rp)"
    using assms(2) by (simp only: rsc_output_estimators(3))
  show ?thesis
    unfolding rsc_output_estimators(5)
    using 1 2 by (subst update_rotor_runup_fields(3)) simp
qed

lemma tick_runup_complete_iff:
  assumes "runup_complete s" and "control_mode s \<noteq> ROTOR_CONTROL_MODE_DISABLED"
  shows "runup_complete (fst (rsc_output pid st now s))
         \<longleftrightarrow> critical_speed s < rotor_runup_output (fst (rsc_output pid st now s))"
proof -
  let ?rp = "update_rotor_ramp (if st = ROTOR_CONTROL_ACTIVE then 1 else 0) (elapsed_time now s) s"
  have 1: "runup_complete ?rp" "critical_speed ?rp = critical_speed s"
    "control_mode ?rp \<noteq> ROTOR_CONTROL_MODE_DISABLED"
    using assms by (simp_all add: update_rotor_ramp_eq)
  show ?thesis
    unfolding rsc_output_estimators(5) rsc_output_estimators(3)
    using 1 by (subst update_rotor_runup_fields(3)) auto
qed

lemma run_events_keeps_runup_complete:
  assumes "runup_complete s"
    and "\<forall>k<length es. is_tick (es ! k) \<longrightarrow>
           critical_speed s < rotor_runup_output (run_events pid (take (Suc k) es) s)"
  shows "runup_complete (run_events pid es s)"
  using assms(2)
proof (induction es rule: rev_induct)
  case Nil
  then show ?case using assms(1) by (simp add: run_events_def)
next
  case (snoc e es)
  have prev: "runup_complete (run_events pid es s)"
  proof (rule snoc.IH, intro allI impI)
    fix k assume k: "k < length es" and t: "is_tick (es ! k)"
    from k have "k < length (es @ [e])" by simp
    moreover from k t have "is_tick ((es @ [e]) ! k)" by (simp add: nth_append)
    ultimately have "critical_speed s
        < rotor_runup_output (run_events pid (take (Suc k) (es @ [e])) s)"
      using snoc.prems by blast
    with k show "critical_speed s < rotor_runup_output (run_events pid (take (Suc k) es) s)"
      by simp
  qed
  show ?case
  proof (cases e)
    case (Tick st now)
    have "critical_speed s
        < rotor_runup_output (run_events pid (take (Suc (length es)) (es @ [e])) s)"
      using snoc.prems [rule_format, of "length es"] Tick by simp
    then have "critical_speed (run_events pid es s)
        < rotor_runup_output (fst (rsc_output pid st now (run_events pid es s)))"
      using Tick by (simp add: run_events_snoc run_events_critical_speed)
    with prev show ?thesis
      unfolding run_events_snoc Tick apply_event.simps
      by (rule tick_keeps_runup_complete)
  next
    case (Set_power_output_range lo hi negc slew)
    with prev show ?thesis
      by (simp add: run_events_snoc set_power_output_range_def)
  next
    case (Set_gov_enable enabled rpm deadband feedback)
    with prev show ?thesis
      by (simp add: run_events_snoc set_gov_enable_def)
  qed
qed

subsection \<open>The open-loop calculator in exact arithmetic\<close>




subsection \<open>The conversion to 16 bits\<close>


subsection \<open>Rounding to binary32\<close>

lemma round_half_even_cases:
  "round_half_even z = \<lfloor>z\<rfloor> \<and> z - of_int \<lfloor>z\<rfloor> \<le> 1 / 2
   \<or> round_half_even z = \<lfloor>z\<rfloor> + 1 \<and> 1 / 2 \<le> z - of_int \<lfloor>z\<rfloor>"
  by (auto simp add: round_half_even_def Let_def)

lemma round_half_even_error: "\<bar>of_int (round_half_even z) - z\<bar> \<le> 1 / 2"
proof -
  have "of_int \<lfloor>z\<rfloor> \<le> z" "z < of_int \<lfloor>z\<rfloor> + 1" by linarith+
  then show ?thesis using round_half_even_cases [of z] by auto
qed

lemma round_half_even_of_int [simp]: "round_half_even (of_int k) = k"
  by (simp add: round_half_even_def)

lemma round_half_even_ge: "of_int k \<le> z \<Longrightarrow> k \<le> round_half_even z"
proof -
  assume "of_int k \<le> z"
  then have "k \<le> \<lfloor>z\<rfloor>" by (simp add: le_floor_iff)
  then show ?thesis using round_half_even_cases [of z] by auto
qed

lemma round_half_even_le: "z \<le> of_int k \<Longrightarrow> round_half_even z \<le> k"
proof -
  assume z: "z \<le> of_int k"
  show ?thesis
  proof (cases "z = of_int k")
    case True
    then show ?thesis by simp
  next
    case False
    with z have "z < of_int k" by simp
    then have "\<lfloor>z\<rfloor> < k" by (simp add: floor_less_iff)
    then show ?thesis using round_half_even_cases [of z] by auto
  qed
qed

lemma exp_search_bounds: "e - int n \<le> exp_search n e a \<and> exp_search n e a \<le> e"
proof (induction n arbitrary: e)
  case 0
  then show ?case by simp
next
  case (Suc n)
  show ?case using Suc [of "e - 1"] by auto
qed

lemma exp_search_hit:
  "e - int n < exp_search n e a \<Longrightarrow> 2 powi (exp_search n e a) \<le> a"
proof (induction n arbitrary: e)
  case 0
  then show ?case by simp
next
  case (Suc n)
  show ?case
  proof (cases "2 powi e \<le> a")
    case True
    then show ?thesis by simp
  next
    case False
    with Suc.prems have "(e - 1) - int n < exp_search n (e - 1) a" by simp
    from Suc.IH [OF this] False show ?thesis by simp
  qed
qed

lemma exp_search_ge:
  "e - int n \<le> k \<Longrightarrow> k \<le> e \<Longrightarrow> 2 powi k \<le> a
   \<Longrightarrow> k \<le> exp_search n e a \<and> 2 powi (exp_search n e a) \<le> a"
proof (induction n arbitrary: e)
  case 0
  then show ?case by simp
next
  case (Suc n)
  show ?case
  proof (cases "2 powi e \<le> a")
    case True
    then show ?thesis using Suc.prems by simp
  next
    case False
    have "k \<noteq> e" using False Suc.prems(3) by auto
    with Suc.prems have "(e - 1) - int n \<le> k" "k \<le> e - 1" by simp_all
    from Suc.IH [OF this Suc.prems(3)] False show ?thesis by simp
  qed
qed

lemma exp_search_less:
  "a < 2 powi (e + 1) \<Longrightarrow> a < 2 powi (exp_search n e a + 1)"
proof (induction n arbitrary: e)
  case 0
  then show ?case by simp
next
  case (Suc n)
  show ?case
  proof (cases "2 powi e \<le> a")
    case True
    then show ?thesis using Suc.prems by simp
  next
    case False
    then have "a < 2 powi ((e - 1) + 1)" by simp
    from Suc.IH [OF this] False show ?thesis by simp
  qed
qed

lemma binary32_exponent_range: "- 126 \<le> binary32_exponent x \<and> binary32_exponent x \<le> 127"
  using exp_search_bounds [of 127 253 "\<bar>x\<bar>"] by (simp add: binary32_exponent_def)

lemma binary32_exponent_hit:
  "binary32_exponent x = - 126 \<or> 2 powi (binary32_exponent x) \<le> \<bar>x\<bar>"
proof (cases "binary32_exponent x = - 126")
  case True
  then show ?thesis by simp
next
  case False
  with binary32_exponent_range [of x] have "127 - int 253 < exp_search 253 127 \<bar>x\<bar>"
    by (simp add: binary32_exponent_def)
  from exp_search_hit [OF this] show ?thesis by (simp add: binary32_exponent_def)
qed

lemma binary32_exponent_ge:
  "- 126 \<le> k \<Longrightarrow> k \<le> 127 \<Longrightarrow> 2 powi k \<le> \<bar>x\<bar>
   \<Longrightarrow> k \<le> binary32_exponent x \<and> 2 powi (binary32_exponent x) \<le> \<bar>x\<bar>"
  using exp_search_ge [of 127 253 k "\<bar>x\<bar>"] by (simp add: binary32_exponent_def)

lemma binary32_exponent_less:
  "\<bar>x\<bar> < 2 powi 128 \<Longrightarrow> \<bar>x\<bar> < 2 powi (binary32_exponent x + 1)"
  using exp_search_less [of "\<bar>x\<bar>" 127 253] by (simp add: binary32_exponent_def)

lemma binary32_quantum_pos: "0 < (2::real) powi k"
  by simp

lemma binary32_round_nonneg: "0 \<le> x \<Longrightarrow> 0 \<le> binary32_round x"
proof -
  assume x: "0 \<le> x"
  let ?q = "(2::real) powi (binary32_exponent x - 23)"
  have "0 \<le> x / ?q" using x by simp
  then have "0 \<le> round_half_even (x / ?q)" using round_half_even_ge [of 0 "x / ?q"] by simp
  then show ?thesis by (simp add: binary32_round_def Let_def)
qed

lemma binary32_round_error:
  "\<bar>binary32_round x - x\<bar> \<le> 2 powi (binary32_exponent x - 24)"
proof -
  let ?q = "(2::real) powi (binary32_exponent x - 23)"
  have q: "0 < ?q" by simp
  have "\<bar>binary32_round x - x\<bar> = \<bar>of_int (round_half_even (x / ?q)) - x / ?q\<bar> * ?q"
  proof -
    have "binary32_round x - x = (of_int (round_half_even (x / ?q)) - x / ?q) * ?q"
      using q by (simp add: binary32_round_def Let_def field_simps)
    then show ?thesis using q by (simp add: abs_mult)
  qed
  also have "\<dots> \<le> (1 / 2) * ?q"
    using round_half_even_error [of "x / ?q"] q by (intro mult_right_mono) simp_all
  also have "\<dots> = 2 powi (binary32_exponent x - 24)"
  proof -
    have "(2::real) powi (binary32_exponent x - 23) = 2 powi (binary32_exponent x - 24 + 1)"
      by simp
    also have "\<dots> = 2 powi (binary32_exponent x - 24) * 2"
      by (subst power_int_add) simp_all
    finally show ?thesis by simp
  qed
  finally show ?thesis .
qed

lemma binary32_round_error_unit:
  assumes "0 \<le> y" and "y < 1"
  shows "\<bar>binary32_round y - y\<bar> \<le> 1 / 2 ^ 25"
proof -
  have e: "binary32_exponent y \<le> - 1"
  proof (rule ccontr)
    assume "\<not> binary32_exponent y \<le> - 1"
    then have e0: "0 \<le> binary32_exponent y" by simp
    then have "binary32_exponent y \<noteq> - 126" by simp
    with binary32_exponent_hit [of y] have "2 powi (binary32_exponent y) \<le> \<bar>y\<bar>" by simp
    moreover have "(1::real) \<le> 2 powi (binary32_exponent y)"
      using e0 by (simp add: one_le_power_int)
    ultimately show False using assms by simp
  qed
  have "(2::real) powi (binary32_exponent y - 24) \<le> 2 powi (- 25)"
    using e by (intro power_int_increasing) simp_all
  also have "\<dots> = 1 / 2 ^ 25" by (simp add: power_int_minus field_simps)
  finally show ?thesis using binary32_round_error [of y] by linarith
qed

lemma binary32_round_ge_one:
  assumes "1 \<le> y"
  shows "1 \<le> binary32_round y"
proof -
  let ?e = "binary32_exponent y"
  let ?q = "(2::real) powi (?e - 23)"
  have "(2::real) powi 0 \<le> \<bar>y\<bar>" using assms by simp
  from binary32_exponent_ge [OF _ _ this] have e: "0 \<le> ?e" "2 powi ?e \<le> \<bar>y\<bar>" by simp_all
  have q: "0 < ?q" by simp
  have "2 powi ?e / ?q = (2::real) powi 23"
    by (simp add: power_int_diff)
  then have "of_int (2 ^ 23) \<le> y / ?q"
    using e(2) assms q by (simp add: field_simps)
  from round_half_even_ge [OF this] have "(2 ^ 23 :: real) \<le> of_int (round_half_even (y / ?q))"
    by (metis of_int_le_iff of_int_numeral of_int_power)
  then have a: "2 ^ 23 * ?q \<le> of_int (round_half_even (y / ?q)) * ?q"
    using q by (intro mult_right_mono) simp_all
  have b: "2 ^ 23 * ?q = 2 powi ?e"
    by (simp add: power_int_diff)
  have c: "(1::real) \<le> 2 powi ?e" using e(1) by (simp add: one_le_power_int)
  have "1 \<le> of_int (round_half_even (y / ?q)) * ?q"
    using a b c by linarith
  then show ?thesis by (simp add: binary32_round_def Let_def)
qed


lemma binary32_round_of_int:
  assumes "1 \<le> T" and "T < 2 ^ 24"
  shows "binary32_round (of_int T) = of_int T"
proof -
  let ?e = "binary32_exponent (of_int T)"
  have "(2::real) powi 0 \<le> \<bar>of_int T\<bar>" using assms(1) by simp
  from binary32_exponent_ge [OF _ _ this]
  have e0: "0 \<le> ?e" and h: "2 powi ?e \<le> \<bar>real_of_int T\<bar>" by simp_all
  have e23: "?e \<le> 23"
  proof (rule ccontr)
    assume "\<not> ?e \<le> 23"
    then have "24 \<le> ?e" by simp
    then have "(2::real) powi 24 \<le> 2 powi ?e" by (intro power_int_increasing) simp_all
    with h have "(2::real) ^ 24 \<le> real_of_int T" using assms(1) by simp
    moreover have "real_of_int T < 2 ^ 24" using assms(2) by (metis of_int_less_iff of_int_numeral of_int_power)
    ultimately show False by simp
  qed
  define m where "m = nat (23 - ?e)"
  have q: "(2::real) powi (?e - 23) = 1 / 2 ^ m"
  proof -
    have "?e - 23 = - int m" using e23 by (simp add: m_def)
    then have "(2::real) powi (?e - 23) = 2 powi (- int m)" by simp
    also have "\<dots> = 1 / 2 ^ m" by (simp add: power_int_minus field_simps)
    finally show ?thesis .
  qed
  have "real_of_int T / (1 / 2 ^ m) = of_int (T * 2 ^ m)" by simp
  then have "round_half_even (real_of_int T / (1 / 2 ^ m)) = T * 2 ^ m"
    by (simp only: round_half_even_of_int)
  then show ?thesis
    by (simp add: binary32_round_def Let_def q)
qed

lemma binary32_round_eq:
  assumes "- 126 \<le> e" and "e \<le> 127" and "2 powi e \<le> \<bar>x\<bar>" and "\<bar>x\<bar> < 2 powi (e + 1)"
  shows "binary32_round x = of_int (round_half_even (x / 2 powi (e - 23))) * 2 powi (e - 23)"
proof -
  from binary32_exponent_ge [OF assms(1-3)]
  have 1: "e \<le> binary32_exponent x" "2 powi (binary32_exponent x) \<le> \<bar>x\<bar>" by simp_all
  have "binary32_exponent x < e + 1"
  proof (rule ccontr)
    assume "\<not> binary32_exponent x < e + 1"
    then have "(2::real) powi (e + 1) \<le> 2 powi (binary32_exponent x)"
      by (intro power_int_increasing) simp_all
    with 1(2) assms(4) show False by linarith
  qed
  with 1(1) have "binary32_exponent x = e" by simp
  then show ?thesis by (simp add: binary32_round_def Let_def)
qed

lemma round_half_even_mono: "a \<le> b \<Longrightarrow> round_half_even a \<le> round_half_even b"
proof -
  assume ab: "a \<le> b"
  have fl: "\<lfloor>a\<rfloor> \<le> \<lfloor>b\<rfloor>" using ab by (rule floor_mono)
  show ?thesis
  proof (cases "\<lfloor>a\<rfloor> = \<lfloor>b\<rfloor>")
    case True
    then show ?thesis using ab by (auto simp add: round_half_even_def Let_def)
  next
    case False
    with fl have "\<lfloor>a\<rfloor> + 1 \<le> \<lfloor>b\<rfloor>" by simp
    then show ?thesis
      using round_half_even_cases [of a] round_half_even_cases [of b] by auto
  qed
qed

lemma round_half_even_minus: "round_half_even (- z) = - round_half_even z"
proof (cases "z = of_int \<lfloor>z\<rfloor>")
  case True
  then have "round_half_even (- of_int \<lfloor>z\<rfloor>) = - round_half_even (of_int \<lfloor>z\<rfloor>)"
    by (metis of_int_minus round_half_even_of_int)
  with True show ?thesis by simp
next
  case False
  then have f: "\<lfloor>- z\<rfloor> = - \<lfloor>z\<rfloor> - 1"
    by (metis False ceiling_def ceiling_altdef diff_minus_eq_add minus_diff_eq minus_minus add.commute uminus_add_conv_diff)
  show ?thesis
    using False by (auto simp add: round_half_even_def Let_def f)
qed

lemma binary32_exponent_minus: "binary32_exponent (- x) = binary32_exponent x"
  by (simp add: binary32_exponent_def)

lemma binary32_round_minus: "binary32_round (- x) = - binary32_round x"
  by (simp add: binary32_round_def Let_def binary32_exponent_minus round_half_even_minus)


lemma binary32_round_one: "binary32_round 1 = 1"
  using binary32_round_of_int [of 1] by simp

lemma binary32_round_nonpos: "x \<le> 0 \<Longrightarrow> binary32_round x \<le> 0"
  using binary32_round_nonneg [of "- x"] by (simp add: binary32_round_minus)

lemma binary32_exponent_mono:
  "\<bar>x\<bar> \<le> \<bar>y\<bar> \<Longrightarrow> binary32_exponent x \<le> binary32_exponent y"
proof -
  assume xy: "\<bar>x\<bar> \<le> \<bar>y\<bar>"
  show ?thesis
  proof (cases "binary32_exponent x = - 126")
    case True
    then show ?thesis using binary32_exponent_range [of y] by simp
  next
    case False
    with binary32_exponent_hit [of x] have "2 powi (binary32_exponent x) \<le> \<bar>x\<bar>" by simp
    with xy have "2 powi (binary32_exponent x) \<le> \<bar>y\<bar>" by linarith
    from binary32_exponent_ge [OF _ _ this] binary32_exponent_range [of x]
    show ?thesis by simp
  qed
qed

lemma binary32_round_le_power:
  assumes "0 \<le> x" and "x < 2 powi (binary32_exponent x + 1)"
  shows "binary32_round x \<le> 2 powi (binary32_exponent x + 1)"
proof -
  let ?e = "binary32_exponent x"
  let ?q = "(2::real) powi (?e - 23)"
  have q: "0 < ?q" by simp
  have p: "2 powi (?e + 1) = 2 ^ 24 * ?q"
  proof -
    have "(2::real) powi (?e + 1) = 2 powi (24 + (?e - 23))"
      by (rule arg_cong [where f = "\<lambda>k. 2 powi k"]) simp
    also have "\<dots> = 2 powi 24 * ?q" by (subst power_int_add) simp_all
    finally show ?thesis by simp
  qed
  have "x / ?q \<le> 2 ^ 24"
    using assms(2) q unfolding p by (simp add: field_simps)
  then have "x / ?q \<le> of_int (2 ^ 24)" by simp
  from round_half_even_le [OF this]
  have "real_of_int (round_half_even (x / ?q)) \<le> 2 ^ 24"
    by (metis of_int_le_iff of_int_numeral of_int_power)
  then have "real_of_int (round_half_even (x / ?q)) * ?q \<le> 2 ^ 24 * ?q"
    using q by (intro mult_right_mono) simp_all
  then show ?thesis unfolding p by (simp add: binary32_round_def Let_def)
qed

lemma binary32_round_ge_power:
  assumes "0 \<le> x" and "2 powi (binary32_exponent x) \<le> x"
  shows "2 powi (binary32_exponent x) \<le> binary32_round x"
proof -
  let ?e = "binary32_exponent x"
  let ?q = "(2::real) powi (?e - 23)"
  have q: "0 < ?q" by simp
  have p: "2 powi ?e = 2 ^ 23 * ?q"
  proof -
    have "(2::real) powi ?e = 2 powi (23 + (?e - 23))"
      by (rule arg_cong [where f = "\<lambda>k. 2 powi k"]) simp
    also have "\<dots> = 2 powi 23 * ?q" by (subst power_int_add) simp_all
    finally show ?thesis by simp
  qed
  have "2 ^ 23 \<le> x / ?q"
    using assms(2) q unfolding p by (simp add: field_simps)
  then have "of_int (2 ^ 23) \<le> x / ?q" by simp
  from round_half_even_ge [OF this]
  have "2 ^ 23 \<le> real_of_int (round_half_even (x / ?q))"
    by (metis of_int_le_iff of_int_numeral of_int_power)
  then have "2 ^ 23 * ?q \<le> real_of_int (round_half_even (x / ?q)) * ?q"
    using q by (intro mult_right_mono) simp_all
  then show ?thesis unfolding p by (simp add: binary32_round_def Let_def)
qed

lemma binary32_round_mono_nonneg:
  assumes "0 \<le> x" and "x \<le> y"
  shows "binary32_round x \<le> binary32_round y"
proof -
  let ?ex = "binary32_exponent x" and ?ey = "binary32_exponent y"
  have y0: "0 \<le> y" using assms by simp
  have le: "?ex \<le> ?ey" using assms by (intro binary32_exponent_mono) simp
  show ?thesis
  proof (cases "?ex = ?ey")
    case True
    let ?q = "(2::real) powi (?ey - 23)"
    have q: "0 < ?q" by simp
    have "x / ?q \<le> y / ?q" using assms(2) q by (simp add: divide_right_mono)
    from round_half_even_mono [OF this]
    have "real_of_int (round_half_even (x / ?q)) * ?q \<le> real_of_int (round_half_even (y / ?q)) * ?q"
      using q by (intro mult_right_mono) simp_all
    then show ?thesis by (simp add: binary32_round_def Let_def True)
  next
    case False
    with le have lt: "?ex + 1 \<le> ?ey" by simp
    have ex127: "?ex < 127" using lt binary32_exponent_range [of y] by simp
    have xs: "\<bar>x\<bar> < 2 powi 128"
    proof (rule ccontr)
      assume "\<not> \<bar>x\<bar> < 2 powi 128"
      then have "(2::real) powi 128 \<le> \<bar>x\<bar>" by simp
      moreover have "(2::real) powi 127 \<le> 2 powi 128" by (intro power_int_increasing) simp_all
      ultimately have "(2::real) powi 127 \<le> \<bar>x\<bar>" by linarith
      from binary32_exponent_ge [OF _ _ this] ex127 show False by simp
    qed
    from binary32_exponent_less [OF xs] assms(1) have "x < 2 powi (?ex + 1)" by simp
    from binary32_round_le_power [OF assms(1) this]
    have 1: "binary32_round x \<le> 2 powi (?ex + 1)" .
    have 2: "(2::real) powi (?ex + 1) \<le> 2 powi ?ey"
      using lt by (intro power_int_increasing) simp_all
    have "?ey \<noteq> - 126" using lt binary32_exponent_range [of x] by simp
    with binary32_exponent_hit [of y] y0 have "2 powi ?ey \<le> y" by simp
    from binary32_round_ge_power [OF y0 this]
    have 3: "2 powi ?ey \<le> binary32_round y" .
    from 1 2 3 show ?thesis by linarith
  qed
qed

lemma binary32_round_mono: "x \<le> y \<Longrightarrow> binary32_round x \<le> binary32_round y"
proof -
  assume xy: "x \<le> y"
  consider "0 \<le> x" | "x < 0" "0 \<le> y" | "x < 0" "y < 0" by linarith
  then show ?thesis
  proof cases
    case 1
    then show ?thesis using xy by (rule binary32_round_mono_nonneg)
  next
    case 2
    then show ?thesis
      using binary32_round_nonneg [of y] binary32_round_nonpos [of x] by simp
  next
    case 3
    then have "0 \<le> - y" "- y \<le> - x" using xy by simp_all
    from binary32_round_mono_nonneg [OF this] show ?thesis
      by (simp add: binary32_round_minus)
  qed
qed

lemma binary32_round_le_one: "x \<le> 1 \<Longrightarrow> binary32_round x \<le> 1"
  using binary32_round_mono [of x 1] by (simp add: binary32_round_one)

lemma binary32_round_tie_one:
  assumes "x \<le> 1 + 1 / 2 ^ 24"
  shows "binary32_round x \<le> 1"
proof (cases "x \<le> 1")
  case True
  then show ?thesis by (rule binary32_round_le_one)
next
  case False
  then have x1: "1 < x" by simp
  have a: "(2::real) powi 0 \<le> \<bar>x\<bar>" using x1 by simp
  have b: "\<bar>x\<bar> < 2 powi (0 + 1)" using x1 assms by simp
  let ?z = "x / 2 powi (0 - 23)"
  have z: "?z = x * 2 ^ 23" by (simp add: power_int_minus field_simps)
  have fl: "\<lfloor>?z\<rfloor> = 2 ^ 23"
  proof -
    have "2 ^ 23 \<le> ?z" using x1 unfolding z by simp
    moreover have "?z < 2 ^ 23 + 1" using assms unfolding z by (simp add: field_simps)
    ultimately show ?thesis by (simp add: floor_eq_iff)
  qed
  have fr: "?z - of_int \<lfloor>?z\<rfloor> \<le> 1 / 2"
    unfolding fl using assms unfolding z by (simp add: field_simps)
  have "round_half_even ?z = 2 ^ 23"
    using fr fl by (simp add: round_half_even_def Let_def)
  then have "binary32_round x = 1"
    by (subst binary32_round_eq [where e = 0, OF _ _ a b]) (simp_all add: power_int_minus)
  then show ?thesis by simp
qed

subsection \<open>The ramp with rounded operations\<close>





lemma update_rotor_ramp_f32_eq:
  "update_rotor_ramp_f32 t dt s =
     s\<lparr>ramp_time := (if ramp_time s \<le> 0 then 1 else ramp_time s),
       rotor_ramp_output :=
         (if rotor_ramp_output s < t
          then min t (binary32_round (max (rotor_ramp_output s) (rotor_runup_output s)
                 + binary32_round (dt / binary32_round
                     (real_of_int (if ramp_time s \<le> 0 then 1 else ramp_time s)))))
          else t)\<rparr>"
  by (simp add: update_rotor_ramp_f32_def sanity_check_ramp_time_eq Let_def min_def max_def)




subsection \<open>The open-loop calculator with rounded operations\<close>

lemma open_loop_f32_value:
  "calc_open_loop_power_control_output_f32 open_loop_state = 8388609 / 8388608"
proof -
  have f1: "binary32_round (25098715 / 33554432) = 6274679 / 8388608"
    by (subst binary32_round_eq [where e = "- 1"]) (simp_all add: round_half_even_def Let_def)
  have f2: "binary32_round (6274679 / 8388608) = 6274679 / 8388608"
    by (subst binary32_round_eq [where e = "- 1"]) (simp_all add: round_half_even_def Let_def)
  have f3: "binary32_round (2156073617 / 8589934592) = 8422163 / 33554432"
    by (subst binary32_round_eq [where e = "- 2"]) (simp_all add: round_half_even_def Let_def)
  have f4: "binary32_round (33520879 / 33554432) = 2095055 / 2097152"
    by (subst binary32_round_eq [where e = "- 1"]) (simp_all add: round_half_even_def Let_def)
  have f5: "binary32_round (2095055 / 2097152) = 2095055 / 2097152"
    by (subst binary32_round_eq [where e = "- 1"]) (simp_all add: round_half_even_def Let_def)
  have f6: "binary32_round (8589935215 / 8589934592) = 8388609 / 8388608"
    by (subst binary32_round_eq [where e = 0]) (simp_all add: round_half_even_def Let_def)
  show ?thesis
    by (simp add: calc_open_loop_power_control_output_f32_def open_loop_state_def rsc_rest_fields
        Let_def f1 f2 f3 f4 f5 f6)
qed

lemma calc_open_loop_f32_cong:
  assumes "load_feedforward s' = load_feedforward s" and "power_output_high s' = power_output_high s"
    and "power_output_low s' = power_output_low s" and "power_output_negc s' = power_output_negc s"
    and "idle_output s' = idle_output s" and "rotor_ramp_output s' = rotor_ramp_output s"
  shows "calc_open_loop_power_control_output_f32 s' = calc_open_loop_power_control_output_f32 s"
  by (simp add: calc_open_loop_power_control_output_f32_def assms)







subsection \<open>The tick with rounded operations\<close>

text \<open>
  The rounded estimators, switch, slew-rate limit and tick as record updates, and the
  fields they leave alone.
\<close>

lemma update_rotor_runup_f32_eq:
  assumes rt: "rt = (if max (runup_time s) (ramp_time s) \<le> 0 then 1
                else max (runup_time s) (ramp_time s))"
    and ru: "ru = (if rotor_runup_output s < rotor_ramp_output s
                then min (rotor_ramp_output s)
                       (binary32_round (rotor_runup_output s
                          + binary32_round (dt / binary32_round (real_of_int rt))))
                else max (rotor_ramp_output s)
                       (binary32_round (rotor_runup_output s
                          - binary32_round (dt / binary32_round (real_of_int rt)))))"
  shows "update_rotor_runup_f32 dt s =
      s\<lparr>runup_time := rt,
           rotor_runup_output := ru,
           runup_complete :=
             (if control_mode s = ROTOR_CONTROL_MODE_DISABLED then True
              else (runup_complete s \<or> (1 \<le> rotor_ramp_output s \<and> 1 \<le> ru))
                   \<and> \<not> ru \<le> critical_speed s)\<rparr>"
proof -
  have s1: "sanity_check_runup_time s = s\<lparr>runup_time := rt\<rparr>"
    by (simp only: sanity_check_runup_time_eq rt)
  show ?thesis
  proof (cases "rotor_runup_output s < rotor_ramp_output s")
    case True
    then show ?thesis
      unfolding update_rotor_runup_f32_def s1 get_rotor_speed_def ru
      by (intro rsc.equality; simp add: Let_def min_def; fastforce?)
  next
    case False
    then show ?thesis
      unfolding update_rotor_runup_f32_def s1 get_rotor_speed_def ru
      by (intro rsc.equality; simp add: Let_def max_def; fastforce?)
  qed
qed

lemma update_rotor_runup_f32_fields:
  "control_mode (update_rotor_runup_f32 dt s) = control_mode s"
  "control_output (update_rotor_runup_f32 dt s) = control_output s"
  "rotor_ramp_output (update_rotor_runup_f32 dt s) = rotor_ramp_output s"
  "power_slewrate (update_rotor_runup_f32 dt s) = power_slewrate s"
  "pwm_min (update_rotor_runup_f32 dt s) = pwm_min s"
  "pwm_max (update_rotor_runup_f32 dt s) = pwm_max s"
  "pwm_rev (update_rotor_runup_f32 dt s) = pwm_rev s"
  "rotor_runup_output (update_rotor_runup_f32 dt s) =
     (if rotor_runup_output s < rotor_ramp_output s
      then min (rotor_ramp_output s)
             (binary32_round (rotor_runup_output s + binary32_round (dt / binary32_round
                (real_of_int (if max (runup_time s) (ramp_time s) \<le> 0 then 1
                              else max (runup_time s) (ramp_time s))))))
      else max (rotor_ramp_output s)
             (binary32_round (rotor_runup_output s - binary32_round (dt / binary32_round
                (real_of_int (if max (runup_time s) (ramp_time s) \<le> 0 then 1
                              else max (runup_time s) (ramp_time s)))))))"
  by (simp_all add: update_rotor_runup_f32_eq [OF refl refl])

lemma calc_closed_loop_f32_frame:
  "\<exists>p'. snd (calc_closed_loop_power_control_output_f32 pid s) = s\<lparr>pid_rotor_gov := p'\<rparr>"
proof (cases "pid_rotor_gov s")
  case None
  then have "snd (calc_closed_loop_power_control_output_f32 pid s) = s\<lparr>pid_rotor_gov := pid_rotor_gov s\<rparr>"
    by (simp add: calc_closed_loop_power_control_output_f32_def)
  then show ?thesis by blast
next
  case (Some p)
  then show ?thesis
    by (auto simp add: calc_closed_loop_power_control_output_f32_def Let_def split: prod.splits)
qed

lemma calc_closed_loop_f32_range:
  "pid_rotor_gov s \<noteq> None \<Longrightarrow>
   0 \<le> fst (calc_closed_loop_power_control_output_f32 pid s)
   \<and> fst (calc_closed_loop_power_control_output_f32 pid s) \<le> 1"
  by (auto simp add: calc_closed_loop_power_control_output_f32_def Let_def constrain_float_def
      split: prod.splits)


lemma calc_closed_loop_f32_fields:
  "control_mode (snd (calc_closed_loop_power_control_output_f32 pid s)) = control_mode s"
  "rotor_ramp_output (snd (calc_closed_loop_power_control_output_f32 pid s)) = rotor_ramp_output s"
  "rotor_runup_output (snd (calc_closed_loop_power_control_output_f32 pid s)) = rotor_runup_output s"
  "ramp_time (snd (calc_closed_loop_power_control_output_f32 pid s)) = ramp_time s"
  "runup_time (snd (calc_closed_loop_power_control_output_f32 pid s)) = runup_time s"
  "power_slewrate (snd (calc_closed_loop_power_control_output_f32 pid s)) = power_slewrate s"
  "pwm_min (snd (calc_closed_loop_power_control_output_f32 pid s)) = pwm_min s"
  "pwm_max (snd (calc_closed_loop_power_control_output_f32 pid s)) = pwm_max s"
  "pwm_rev (snd (calc_closed_loop_power_control_output_f32 pid s)) = pwm_rev s"
proof -
  obtain p' where "snd (calc_closed_loop_power_control_output_f32 pid s) = s\<lparr>pid_rotor_gov := p'\<rparr>"
    using calc_closed_loop_f32_frame by blast
  then show
  "control_mode (snd (calc_closed_loop_power_control_output_f32 pid s)) = control_mode s"
  "rotor_ramp_output (snd (calc_closed_loop_power_control_output_f32 pid s)) = rotor_ramp_output s"
  "rotor_runup_output (snd (calc_closed_loop_power_control_output_f32 pid s)) = rotor_runup_output s"
  "ramp_time (snd (calc_closed_loop_power_control_output_f32 pid s)) = ramp_time s"
  "runup_time (snd (calc_closed_loop_power_control_output_f32 pid s)) = runup_time s"
  "power_slewrate (snd (calc_closed_loop_power_control_output_f32 pid s)) = power_slewrate s"
  "pwm_min (snd (calc_closed_loop_power_control_output_f32 pid s)) = pwm_min s"
  "pwm_max (snd (calc_closed_loop_power_control_output_f32 pid s)) = pwm_max s"
  "pwm_rev (snd (calc_closed_loop_power_control_output_f32 pid s)) = pwm_rev s"
    by simp_all
qed

lemma output_switch_f32_frame:
  "control_mode (output_switch_f32 pid st dt lc s) = control_mode s"
  "rotor_runup_output (output_switch_f32 pid st dt lc s) = rotor_runup_output s"
  "runup_time (output_switch_f32 pid st dt lc s) = runup_time s"
  "power_slewrate (output_switch_f32 pid st dt lc s) = power_slewrate s"
  "pwm_min (output_switch_f32 pid st dt lc s) = pwm_min s"
  "pwm_max (output_switch_f32 pid st dt lc s) = pwm_max s"
  "pwm_rev (output_switch_f32 pid st dt lc s) = pwm_rev s"
  "ramp_time (output_switch_f32 pid st dt lc s) = (if ramp_time s \<le> 0 then 1 else ramp_time s)"
  "rotor_ramp_output (output_switch_f32 pid st dt lc s) =
     rotor_ramp_output (update_rotor_ramp_f32 (if st = ROTOR_CONTROL_ACTIVE then 1 else 0) dt s)"
  by (cases st; simp add: output_switch_f32_def Let_def case_prod_beta calc_closed_loop_f32_fields;
      simp add: update_rotor_ramp_f32_eq)+

lemma output_switch_f32_control_output:
  "control_output (output_switch_f32 pid ROTOR_CONTROL_STOP dt lc s) = 0"
  "control_output (output_switch_f32 pid ROTOR_CONTROL_IDLE dt lc s) = idle_output s"
  by (simp_all add: output_switch_f32_def Let_def update_rotor_ramp_f32_eq)

lemma output_switch_f32_active_control_output:
  "control_output (output_switch_f32 pid ROTOR_CONTROL_ACTIVE dt lc s) =
     (let s1 = update_rotor_ramp_f32 1 dt s in
      if control_mode s = ROTOR_CONTROL_MODE_SPEED_PASSTHROUGH
         \<or> control_mode s = ROTOR_CONTROL_MODE_SPEED_SETPOINT
      then binary32_round (idle_output s + binary32_round (rotor_ramp_output s1
             * binary32_round (desired_speed s - idle_output s)))
      else if control_mode s = ROTOR_CONTROL_MODE_OPEN_LOOP_POWER_OUTPUT
      then calc_open_loop_power_control_output_f32 s1
      else if control_mode s = ROTOR_CONTROL_MODE_GOVERNOR
      then (if \<not> gov_enabled s
            then binary32_round (idle_output s + binary32_round (rotor_ramp_output s1
                   * binary32_round (desired_speed s - idle_output s)))
            else if \<bar>binary32_round (binary32_round (real_of_int (sint (governor_rpm_setpoint s)))
                         - rpm_feedback s)\<bar>
                      < binary32_round (real_of_int (sint (governor_rpm_deadband s)))
            then lc
            else fst (calc_closed_loop_power_control_output_f32 pid s1))
      else control_output s)"
  by (simp add: output_switch_f32_def Let_def case_prod_beta update_rotor_ramp_f32_eq)

lemma output_slew_f32_eq:
  "output_slew_f32 dt lc s =
     s\<lparr>control_output :=
         (if power_slewrate s > 0
          then constrain_float (control_output s)
                 (binary32_round (lc - binary32_round
                    (binary32_round (dt * binary32_round (real (unat (power_slewrate s))))
                       * binary32_round (1 / 100))))
                 (binary32_round (lc + binary32_round
                    (binary32_round (dt * binary32_round (real (unat (power_slewrate s))))
                       * binary32_round (1 / 100))))
          else control_output s)\<rparr>"
  by (simp add: output_slew_f32_def Let_def)

lemma rsc_output_f32_fst:
  "fst (rsc_output_f32 pid st now s) =
     output_slew_f32 (elapsed_time_f32 now s) (control_output s)
       (update_rotor_runup_f32 (elapsed_time_f32 now s)
          (output_switch_f32 pid st (elapsed_time_f32 now s) (control_output s)
             (s\<lparr>last_update_us := now\<rparr>)))"
  by (simp add: rsc_output_f32_def Let_def)



lemma rsc_output_f32_control_output:
  "control_output (fst (rsc_output_f32 pid st now s)) =
     (if power_slewrate s > 0
      then constrain_float
             (control_output (output_switch_f32 pid st (elapsed_time_f32 now s) (control_output s)
                (s\<lparr>last_update_us := now\<rparr>)))
             (binary32_round (control_output s - binary32_round
                (binary32_round (elapsed_time_f32 now s
                    * binary32_round (real (unat (power_slewrate s))))
                   * binary32_round (1 / 100))))
             (binary32_round (control_output s + binary32_round
                (binary32_round (elapsed_time_f32 now s
                    * binary32_round (real (unat (power_slewrate s))))
                   * binary32_round (1 / 100))))
      else control_output (output_switch_f32 pid st (elapsed_time_f32 now s) (control_output s)
                (s\<lparr>last_update_us := now\<rparr>)))"
  by (simp add: rsc_output_f32_fst output_slew_f32_eq update_rotor_runup_f32_fields
      output_switch_f32_frame)

lemma rsc_output_f32_ramp:
  "rotor_ramp_output (fst (rsc_output_f32 pid st now s)) =
     rotor_ramp_output
       (update_rotor_ramp_f32 (if st = ROTOR_CONTROL_ACTIVE then 1 else 0)
          (elapsed_time_f32 now s) s)"
  by (simp add: rsc_output_f32_fst output_slew_f32_eq update_rotor_runup_f32_fields
      output_switch_f32_frame)
     (simp add: update_rotor_ramp_f32_eq)

subsection \<open>Bounds of the estimators under rounding\<close>

lemma elapsed_time_f32_nonneg: "0 \<le> elapsed_time_f32 now s"
proof -
  have a: "0 \<le> binary32_round (1 / 1000000)" by (intro binary32_round_nonneg) simp
  have b: "0 \<le> binary32_round (real (unat (now - last_update_us s)))"
    by (intro binary32_round_nonneg) (simp add: unsigned_real_nonneg)
  have "0 \<le> binary32_round (1 / 1000000)
          * binary32_round (real (unat (now - last_update_us s)))"
    using a b by (rule mult_nonneg_nonneg)
  then have c: "0 \<le> binary32_round (binary32_round (1 / 1000000)
          * binary32_round (real (unat (now - last_update_us s))))"
    by (rule binary32_round_nonneg)
  have d: "0 \<le> binary32_round (1 / 1000)" by (intro binary32_round_nonneg) simp
  show ?thesis
  proof (cases "last_update_us s = 0")
    case True
    then have "elapsed_time_f32 now s = binary32_round (1 / 1000)"
      by (simp add: elapsed_time_f32_def)
    then show ?thesis using d by (simp only:)
  next
    case False
    then have "elapsed_time_f32 now s = binary32_round (binary32_round (1 / 1000000)
          * binary32_round (real (unat (now - last_update_us s))))"
      by (simp add: elapsed_time_f32_def)
    then show ?thesis using c by (simp only:)
  qed
qed

lemma increment_f32_nonneg:
  assumes "0 \<le> dt" and "1 \<le> T"
  shows "0 \<le> binary32_round (dt / binary32_round (real_of_int T))"
proof -
  have "1 \<le> binary32_round (real_of_int T)"
    using assms(2) by (intro binary32_round_ge_one) simp
  then show ?thesis using assms(1) by (intro binary32_round_nonneg) simp
qed

lemma rotor_ramp_output_f32_le_target:
  "rotor_ramp_output (update_rotor_ramp_f32 t dt s) \<le> t"
  by (simp add: update_rotor_ramp_f32_eq)

lemma rotor_ramp_output_f32_nonneg:
  assumes "0 \<le> dt" and "0 \<le> rotor_ramp_output s" and "0 \<le> t"
  shows "0 \<le> rotor_ramp_output (update_rotor_ramp_f32 t dt s)"
proof -
  let ?T = "if ramp_time s \<le> 0 then 1 else ramp_time s"
  have "0 \<le> binary32_round (dt / binary32_round (real_of_int ?T))"
    using assms(1) by (intro increment_f32_nonneg) simp_all
  then have "0 \<le> max (rotor_ramp_output s) (rotor_runup_output s)
               + binary32_round (dt / binary32_round (real_of_int ?T))"
    using assms(2) by simp
  then have "0 \<le> binary32_round (max (rotor_ramp_output s) (rotor_runup_output s)
               + binary32_round (dt / binary32_round (real_of_int ?T)))"
    by (rule binary32_round_nonneg)
  then show ?thesis
    using assms(3) by (simp add: update_rotor_ramp_f32_eq)
qed

lemma ramp_target_f32_le_one:
  "rotor_ramp_output (update_rotor_ramp_f32 (if st = ROTOR_CONTROL_ACTIVE then 1 else 0) dt s) \<le> 1"
proof (cases "st = ROTOR_CONTROL_ACTIVE")
  case True
  then show ?thesis using rotor_ramp_output_f32_le_target [of 1 dt s] by simp
next
  case False
  then show ?thesis using rotor_ramp_output_f32_le_target [of 0 dt s] by simp
qed

lemma clamp_upper:
  fixes r a b hi :: real
  shows "r \<le> hi \<Longrightarrow> b \<le> hi \<Longrightarrow> (if c then min r a else max r b) \<le> hi"
  by auto

lemma clamp_lower:
  fixes r a b lo :: real
  shows "lo \<le> r \<Longrightarrow> lo \<le> a \<Longrightarrow> lo \<le> (if c then min r a else max r b)"
  by auto

lemma rotor_runup_output_f32_le_one:
  assumes "0 \<le> dt" and "rotor_runup_output s \<le> 1" and "rotor_ramp_output s \<le> 1"
  shows "rotor_runup_output (update_rotor_runup_f32 dt s) \<le> 1"
proof -
  define T where "T = (if max (runup_time s) (ramp_time s) \<le> 0 then 1
                        else max (runup_time s) (ramp_time s))"
  let ?i = "binary32_round (dt / binary32_round (real_of_int T))"
  have "1 \<le> T" by (simp add: T_def max_def)
  with assms(1) have i: "0 \<le> ?i" by (rule increment_f32_nonneg)
  then have "rotor_runup_output s - ?i \<le> 1" using assms(2) by simp
  then have "binary32_round (rotor_runup_output s - ?i) \<le> 1" by (rule binary32_round_le_one)
  with assms(3) show ?thesis
    unfolding update_rotor_runup_f32_fields(8) T_def [symmetric] by (rule clamp_upper)
qed

lemma rotor_runup_output_f32_nonneg:
  assumes "0 \<le> dt" and "0 \<le> rotor_runup_output s" and "0 \<le> rotor_ramp_output s"
  shows "0 \<le> rotor_runup_output (update_rotor_runup_f32 dt s)"
proof -
  define T where "T = (if max (runup_time s) (ramp_time s) \<le> 0 then 1
                        else max (runup_time s) (ramp_time s))"
  let ?i = "binary32_round (dt / binary32_round (real_of_int T))"
  have "1 \<le> T" by (simp add: T_def max_def)
  with assms(1) have i: "0 \<le> ?i" by (rule increment_f32_nonneg)
  then have "0 \<le> rotor_runup_output s + ?i" using assms(2) by simp
  then have "0 \<le> binary32_round (rotor_runup_output s + ?i)" by (rule binary32_round_nonneg)
  with assms(3) show ?thesis
    unfolding update_rotor_runup_f32_fields(8) T_def [symmetric] by (rule clamp_lower)
qed

lemma rsc_output_f32_runup:
  "rotor_runup_output (fst (rsc_output_f32 pid st now s)) =
     rotor_runup_output
       (update_rotor_runup_f32 (elapsed_time_f32 now s)
          (output_switch_f32 pid st (elapsed_time_f32 now s) (control_output s)
             (s\<lparr>last_update_us := now\<rparr>)))"
  by (simp add: rsc_output_f32_fst output_slew_f32_eq)

lemma rsc_output_f32_ramp_le_one: "rotor_ramp_output (fst (rsc_output_f32 pid st now s)) \<le> 1"
  unfolding rsc_output_f32_ramp by (rule ramp_target_f32_le_one)

lemma rsc_output_f32_ramp_nonneg:
  "0 \<le> rotor_ramp_output s \<Longrightarrow> 0 \<le> rotor_ramp_output (fst (rsc_output_f32 pid st now s))"
  unfolding rsc_output_f32_ramp
  by (rule rotor_ramp_output_f32_nonneg) (simp_all add: elapsed_time_f32_nonneg)

lemma output_switch_f32_ramp_of_tick:
  "rotor_ramp_output (output_switch_f32 pid st dt lc (s\<lparr>last_update_us := now\<rparr>))
     = rotor_ramp_output (update_rotor_ramp_f32 (if st = ROTOR_CONTROL_ACTIVE then 1 else 0) dt s)"
  by (simp add: output_switch_f32_frame) (simp add: update_rotor_ramp_f32_eq)

lemma rsc_output_f32_runup_le_one:
  "rotor_runup_output s \<le> 1 \<Longrightarrow> rotor_runup_output (fst (rsc_output_f32 pid st now s)) \<le> 1"
  unfolding rsc_output_f32_runup
  by (rule rotor_runup_output_f32_le_one)
     (simp_all add: elapsed_time_f32_nonneg output_switch_f32_frame(2)
        output_switch_f32_ramp_of_tick ramp_target_f32_le_one)

lemma rsc_output_f32_runup_nonneg:
  "0 \<le> rotor_runup_output s \<Longrightarrow> 0 \<le> rotor_ramp_output s
   \<Longrightarrow> 0 \<le> rotor_runup_output (fst (rsc_output_f32 pid st now s))"
  unfolding rsc_output_f32_runup
  by (rule rotor_runup_output_f32_nonneg)
     (simp_all add: elapsed_time_f32_nonneg output_switch_f32_frame(2)
        output_switch_f32_ramp_of_tick rotor_ramp_output_f32_nonneg)

subsection \<open>Bounds of the control output under rounding\<close>

text \<open>
  The interpolation between idle output and desired speed stays in [0,1] when each of
  its three operations is rounded: rounding is monotone, 0 and 1 are binary32 values, and
  a sum of at most \<open>1 + 1 / 2 ^ 24\<close> rounds to at most 1. The rounded open-loop
  expression differs from its exact value by at most six roundings of values below 4.
\<close>

lemma binary32_round_error_unit_closed:
  assumes "0 \<le> y" and "y \<le> 1"
  shows "binary32_round y \<le> y + 1 / 2 ^ 25"
proof (cases "y < 1")
  case True
  with binary32_round_error_unit [OF assms(1) True] show ?thesis by linarith
next
  case False
  with assms have "y = 1" by simp
  then show ?thesis by (simp add: binary32_round_one)
qed

lemma passthrough_unit_f32:
  fixes r idle d :: real
  assumes r: "0 \<le> r" "r \<le> 1" and idle: "0 \<le> idle" "idle \<le> 1"
    and rep: "binary32_round idle = idle" and d: "0 \<le> d" "d \<le> 1"
  shows "0 \<le> binary32_round (idle + binary32_round (r * binary32_round (d - idle)))
    \<and> binary32_round (idle + binary32_round (r * binary32_round (d - idle))) \<le> 1"
proof -
  let ?D = "binary32_round (d - idle)"
  let ?p = "binary32_round (r * ?D)"
  have neg: "binary32_round (- idle) = - idle"
    by (simp add: binary32_round_minus rep)
  show ?thesis
  proof (cases "idle \<le> d")
    case True
    then have D0: "0 \<le> ?D" by (intro binary32_round_nonneg) simp
    have D1: "?D \<le> 1" using idle d by (intro binary32_round_le_one) simp
    have Dx: "?D \<le> (d - idle) + 1 / 2 ^ 25"
      using True idle d by (intro binary32_round_error_unit_closed) simp_all
    have rD0: "0 \<le> r * ?D" using r(1) D0 by (rule mult_nonneg_nonneg)
    have "r * ?D \<le> 1 * ?D" using r(2) D0 by (rule mult_right_mono)
    then have rD: "r * ?D \<le> ?D" by simp
    have p0: "0 \<le> ?p" using rD0 by (rule binary32_round_nonneg)
    have "?p \<le> r * ?D + 1 / 2 ^ 25"
      using rD0 rD D1 by (intro binary32_round_error_unit_closed) simp_all
    with rD Dx have "?p \<le> (d - idle) + 1 / 2 ^ 25 + 1 / 2 ^ 25" by linarith
    then have "idle + ?p \<le> d + 1 / 2 ^ 24" by simp
    with d(2) have "idle + ?p \<le> 1 + 1 / 2 ^ 24" by linarith
    then have up: "binary32_round (idle + ?p) \<le> 1" by (rule binary32_round_tie_one)
    have "0 \<le> idle + ?p" using idle(1) p0 by simp
    then have "0 \<le> binary32_round (idle + ?p)" by (rule binary32_round_nonneg)
    with up show ?thesis by simp
  next
    case False
    then have x: "d - idle \<le> 0" "- idle \<le> d - idle" using d by simp_all
    have D0: "?D \<le> 0" using x(1) by (rule binary32_round_nonpos)
    have Dl: "- idle \<le> ?D" using binary32_round_mono [OF x(2)] by (simp only: neg)
    have "r * ?D \<le> 0" using r(1) D0 by (simp add: mult_nonneg_nonpos)
    then have p0: "?p \<le> 0" by (rule binary32_round_nonpos)
    have "1 * ?D \<le> r * ?D" using r(2) D0 by (intro mult_right_mono_neg) simp_all
    then have "- idle \<le> r * ?D" using Dl by simp
    from binary32_round_mono [OF this] have pl: "- idle \<le> ?p" by (simp only: neg)
    have "0 \<le> idle + ?p" using pl by simp
    then have lo: "0 \<le> binary32_round (idle + ?p)" by (rule binary32_round_nonneg)
    have "idle + ?p \<le> 1" using p0 idle(2) by simp
    then have "binary32_round (idle + ?p) \<le> 1" by (rule binary32_round_le_one)
    with lo show ?thesis by simp
  qed
qed

lemma max_delta_f32_nonneg:
  assumes "0 \<le> dt"
  shows "0 \<le> binary32_round
           (binary32_round (dt * binary32_round (real (unat (w :: 16 word))))
              * binary32_round (1 / 100))"
proof -
  have "0 \<le> binary32_round (real (unat w))"
    by (intro binary32_round_nonneg) (simp add: unsigned_real_nonneg)
  with assms have "0 \<le> dt * binary32_round (real (unat w))" by (rule mult_nonneg_nonneg)
  then have a: "0 \<le> binary32_round (dt * binary32_round (real (unat w)))"
    by (rule binary32_round_nonneg)
  have b: "0 \<le> binary32_round (1 / 100)" by (intro binary32_round_nonneg) simp
  from a b have "0 \<le> binary32_round (dt * binary32_round (real (unat w)))
                    * binary32_round (1 / 100)"
    by (rule mult_nonneg_nonneg)
  then show ?thesis by (rule binary32_round_nonneg)
qed

lemma constrain_float_slew_f32:
  assumes "0 \<le> md" and "0 \<le> lc" and "lc \<le> 1" and "a \<le> 0" and "1 \<le> b"
    and "a \<le> x" and "x \<le> b"
  shows "a \<le> constrain_float x (binary32_round (lc - md)) (binary32_round (lc + md))
    \<and> constrain_float x (binary32_round (lc - md)) (binary32_round (lc + md)) \<le> b"
proof -
  have "binary32_round (lc - md) \<le> 1" using assms(1,3) by (intro binary32_round_le_one) simp
  moreover have "0 \<le> binary32_round (lc + md)" using assms(1,2) by (intro binary32_round_nonneg) simp
  ultimately show ?thesis using assms(4-7) by (auto simp add: constrain_float_def)
qed

lemma output_switch_f32_control_output_unit_closed:
  assumes cfg: "speed_config_in_range s" and rep: "binary32_round (idle_output s) = idle_output s"
    and nol: "\<not> open_loop_tick st s"
    and r0: "0 \<le> rotor_ramp_output s" and dt: "0 \<le> dt"
    and lc: "0 \<le> lc" "lc \<le> 1" and c: "control_output s = lc"
  shows "0 \<le> control_output (output_switch_f32 pid st dt lc s)
         \<and> control_output (output_switch_f32 pid st dt lc s) \<le> 1"
proof (cases st)
  case ROTOR_CONTROL_STOP
  then show ?thesis by (simp add: output_switch_f32_control_output)
next
  case ROTOR_CONTROL_IDLE
  then show ?thesis
    using cfg by (simp add: output_switch_f32_control_output speed_config_in_range_def)
next
  case ROTOR_CONTROL_ACTIVE
  let ?s1 = "update_rotor_ramp_f32 1 dt s"
  have r: "0 \<le> rotor_ramp_output ?s1" "rotor_ramp_output ?s1 \<le> 1"
    using rotor_ramp_output_f32_nonneg [OF dt r0, of 1] rotor_ramp_output_f32_le_target [of 1 dt s]
    by simp_all
  have idle: "0 \<le> idle_output s" "idle_output s \<le> 1" "0 \<le> desired_speed s" "desired_speed s \<le> 1"
    using cfg by (simp_all add: speed_config_in_range_def)
  note pt = passthrough_unit_f32 [OF r idle(1,2) rep idle(3,4)]
  have cl: "0 \<le> fst (calc_closed_loop_power_control_output_f32 pid ?s1)
         \<and> fst (calc_closed_loop_power_control_output_f32 pid ?s1) \<le> 1"
    if "pid_rotor_gov s \<noteq> None"
    using that by (intro calc_closed_loop_f32_range) (simp add: update_rotor_ramp_f32_eq)
  show ?thesis
    unfolding ROTOR_CONTROL_ACTIVE output_switch_f32_active_control_output Let_def
    using pt cl lc c nol ROTOR_CONTROL_ACTIVE by (auto simp add: open_loop_tick_def)
qed

lemma rsc_output_f32_control_output_unit_closed:
  assumes "speed_config_in_range s" and "binary32_round (idle_output s) = idle_output s"
    and "\<not> open_loop_tick st s"
    and "0 \<le> rotor_ramp_output s"
    and "0 \<le> control_output s" and "control_output s \<le> 1"
  shows "0 \<le> control_output (fst (rsc_output_f32 pid st now s))
         \<and> control_output (fst (rsc_output_f32 pid st now s)) \<le> 1"
proof -
  let ?x = "control_output (output_switch_f32 pid st (elapsed_time_f32 now s) (control_output s)
              (s\<lparr>last_update_us := now\<rparr>))"
  have x: "0 \<le> ?x \<and> ?x \<le> 1"
    using assms
    by (intro output_switch_f32_control_output_unit_closed)
       (simp_all add: speed_config_in_range_def open_loop_tick_def elapsed_time_f32_nonneg)
  have md: "0 \<le> binary32_round
           (binary32_round (elapsed_time_f32 now s * binary32_round (real (unat (power_slewrate s))))
              * binary32_round (1 / 100))"
    by (rule max_delta_f32_nonneg) (rule elapsed_time_f32_nonneg)
  from constrain_float_slew_f32 [OF md assms(5,6), of 0 1 ?x] x
  show ?thesis
    unfolding rsc_output_f32_control_output by (simp split: if_splits)
qed




subsection \<open>The PWM mapping under rounding\<close>




subsection \<open>Ticks of the concrete controllers\<close>

lemma binary32_dyadic_values:
  "binary32_round (1 / 8) = 1 / 8"
  "binary32_round (5 / 8) = 5 / 8"
  "binary32_round (3 / 4) = 3 / 4"
  "binary32_round 1000 = 1000"
  "binary32_round 750 = 750"
proof -
  show "binary32_round (1 / 8) = 1 / 8"
    by (subst binary32_round_eq [where e = "- 3"]) (simp_all add: round_half_even_def Let_def)
  show "binary32_round (5 / 8) = 5 / 8"
    by (subst binary32_round_eq [where e = "- 1"]) (simp_all add: round_half_even_def Let_def)
  show "binary32_round (3 / 4) = 3 / 4"
    by (subst binary32_round_eq [where e = "- 1"]) (simp_all add: round_half_even_def Let_def)
  show "binary32_round 1000 = 1000"
    by (subst binary32_round_eq [where e = 9]) (simp_all add: round_half_even_def Let_def)
  show "binary32_round 750 = 750"
    by (subst binary32_round_eq [where e = 9]) (simp_all add: round_half_even_def Let_def)
qed


lemma open_loop_tick_f32_value:
  "control_output (fst (rsc_output_f32 example_pid ROTOR_CONTROL_ACTIVE 1000 open_loop_state))
     = 8388609 / 8388608"
proof -
  let ?s1 = "update_rotor_ramp_f32 1 (elapsed_time_f32 1000 open_loop_state)
               (open_loop_state\<lparr>last_update_us := 1000\<rparr>)"
  have "calc_open_loop_power_control_output_f32 ?s1
          = calc_open_loop_power_control_output_f32 open_loop_state"
    by (rule calc_open_loop_f32_cong)
       (simp_all add: update_rotor_ramp_f32_eq open_loop_state_def rsc_rest_fields)
  then show ?thesis
    by (simp add: rsc_output_f32_control_output output_switch_f32_active_control_output
        open_loop_f32_value)
       (simp add: open_loop_state_def rsc_rest_fields)
qed

lemma runup_f32_at_full_speed:
  assumes "0 \<le> dt" and "rotor_ramp_output s = 1" and "rotor_runup_output s = 1"
  shows "rotor_runup_output (update_rotor_runup_f32 dt s) = 1"
proof -
  have "rotor_runup_output (update_rotor_runup_f32 dt s) \<le> 1"
    using assms by (intro rotor_runup_output_f32_le_one) simp_all
  moreover have "1 \<le> rotor_runup_output (update_rotor_runup_f32 dt s)"
    using assms(2,3) by (subst update_rotor_runup_f32_fields(8)) simp
  ultimately show ?thesis by simp
qed

lemma cruise_tick_f32_values:
  "rotor_ramp_output (fst (rsc_output_f32 example_pid ROTOR_CONTROL_ACTIVE 6000 cruise_state)) = 1"
  "rotor_runup_output (fst (rsc_output_f32 example_pid ROTOR_CONTROL_ACTIVE 6000 cruise_state)) = 1"
  "control_output (fst (rsc_output_f32 example_pid ROTOR_CONTROL_ACTIVE 6000 cruise_state)) = 3 / 4"
proof -
  show "rotor_ramp_output (fst (rsc_output_f32 example_pid ROTOR_CONTROL_ACTIVE 6000 cruise_state)) = 1"
    by (simp add: rsc_output_f32_ramp update_rotor_ramp_f32_eq cruise_state_def rsc_rest_fields)
  show "rotor_runup_output (fst (rsc_output_f32 example_pid ROTOR_CONTROL_ACTIVE 6000 cruise_state)) = 1"
    unfolding rsc_output_f32_runup
    by (rule runup_f32_at_full_speed)
       (simp_all add: elapsed_time_f32_nonneg output_switch_f32_frame(2)
          output_switch_f32_ramp_of_tick update_rotor_ramp_f32_eq cruise_state_def rsc_rest_fields)
  show "control_output (fst (rsc_output_f32 example_pid ROTOR_CONTROL_ACTIVE 6000 cruise_state)) = 3 / 4"
    by (simp add: rsc_output_f32_control_output output_switch_f32_active_control_output
        update_rotor_ramp_f32_eq cruise_state_def rsc_rest_fields binary32_dyadic_values)
qed

section \<open>The claims\<close>

subsection \<open>The unit interval\<close>

text \<open>
  C1, as the claim states it, fails for \<open>control_output\<close>, in two ways. The Idle case
  copies \<open>idle_output\<close> without a clamp: a controller at rest configured with an idle
  output of 2 has all three fields in [0,1] before its first Idle tick and a
  \<open>control_output\<close> of 2 after it. And with every configured fraction in range, an
  Active tick in open-loop mode assigns the result of the open-loop calculator as it is:
  for an idle output of \<open>0.001f\<close>, a low power level of \<open>0.252f\<close>, a high power
  level of 1 and a load feed-forward of 1 at full ramp that tick leaves
  \<open>control_output\<close> at 8388609/8388608, one unit in the last place above 1.
\<close>

theorem idle_output_above_one_leaves_unit_interval:
  "rotor_ramp_output overdriven_state = 0 \<and> rotor_runup_output overdriven_state = 0
   \<and> control_output overdriven_state = 0
   \<and> control_output (fst (rsc_output_f32 example_pid ROTOR_CONTROL_IDLE 1000 overdriven_state)) = 2
   \<and> \<not> control_output (fst (rsc_output_f32 example_pid ROTOR_CONTROL_IDLE 1000 overdriven_state)) \<le> 1
   \<and> config_in_range open_loop_state
   \<and> rotor_ramp_output open_loop_state = 1 \<and> rotor_runup_output open_loop_state = 1
   \<and> control_output open_loop_state = 0
   \<and> control_output (fst (rsc_output_f32 example_pid ROTOR_CONTROL_ACTIVE 1000 open_loop_state))
        = 8388609 / 8388608
   \<and> \<not> control_output (fst (rsc_output_f32 example_pid ROTOR_CONTROL_ACTIVE 1000 open_loop_state))
        \<le> 1"
proof -
  have a: "rotor_ramp_output overdriven_state = 0 \<and> rotor_runup_output overdriven_state = 0
   \<and> control_output overdriven_state = 0
   \<and> control_output (fst (rsc_output_f32 example_pid ROTOR_CONTROL_IDLE 1000 overdriven_state)) = 2
   \<and> \<not> control_output (fst (rsc_output_f32 example_pid ROTOR_CONTROL_IDLE 1000 overdriven_state)) \<le> 1"
    by (simp add: rsc_output_f32_control_output output_switch_f32_control_output
        overdriven_state_def rsc_rest_fields)
  have b: "config_in_range open_loop_state
   \<and> rotor_ramp_output open_loop_state = 1 \<and> rotor_runup_output open_loop_state = 1
   \<and> control_output open_loop_state = 0"
    by (simp add: config_in_range_def open_loop_state_def rsc_rest_fields)
  show ?thesis
    using a b unfolding open_loop_tick_f32_value by simp
qed

text \<open>
  C1, amended: for every command, control mode and configuration, when
  \<open>rotor_ramp_output\<close>, \<open>rotor_runup_output\<close> and \<open>control_output\<close> lie in
  [0,1] before a call of \<open>output\<close>, the two estimator fields lie in [0,1] after it;
  \<open>control_output\<close> lies in [0,1] after it when, in addition, \<open>idle_output\<close> and
  \<open>desired_speed\<close> are in [0,1] and the tick cannot call the open-loop calculator: it
  is not an Active tick in open-loop mode, nor an Active tick in governor mode with the
  governor enabled and without a PID controller. Nothing is said of \<open>control_output\<close>
  after the ticks left out. The statement is about the tick with rounded operations;
  \<open>idle_output\<close> is a value of the type \<open>float\<close>.
\<close>

theorem running_state_stays_in_unit_interval:
  assumes "0 \<le> rotor_ramp_output s" and "rotor_ramp_output s \<le> 1"
    and "0 \<le> rotor_runup_output s" and "rotor_runup_output s \<le> 1"
    and "0 \<le> control_output s" and "control_output s \<le> 1"
  shows "0 \<le> rotor_ramp_output (fst (rsc_output_f32 pid st now s))
    \<and> rotor_ramp_output (fst (rsc_output_f32 pid st now s)) \<le> 1
    \<and> 0 \<le> rotor_runup_output (fst (rsc_output_f32 pid st now s))
    \<and> rotor_runup_output (fst (rsc_output_f32 pid st now s)) \<le> 1
    \<and> (speed_config_in_range s \<and> is_binary32 (idle_output s) \<and> \<not> open_loop_tick st s \<longrightarrow>
          0 \<le> control_output (fst (rsc_output_f32 pid st now s))
          \<and> control_output (fst (rsc_output_f32 pid st now s)) \<le> 1)"
  using rsc_output_f32_ramp_nonneg [OF assms(1)] rsc_output_f32_ramp_le_one
    rsc_output_f32_runup_nonneg [OF assms(3) assms(1)] rsc_output_f32_runup_le_one [OF assms(4)]
    rsc_output_f32_control_output_unit_closed [OF _ _ _ assms(1) assms(5) assms(6)]
  unfolding is_binary32_def by blast

theorem running_state_stays_in_unit_interval_witness:
  "0 \<le> rotor_ramp_output cruise_state \<and> rotor_ramp_output cruise_state \<le> 1
   \<and> 0 \<le> rotor_runup_output cruise_state \<and> rotor_runup_output cruise_state \<le> 1
   \<and> 0 \<le> control_output cruise_state \<and> control_output cruise_state \<le> 1
   \<and> speed_config_in_range cruise_state \<and> is_binary32 (idle_output cruise_state)
   \<and> \<not> open_loop_tick ROTOR_CONTROL_ACTIVE cruise_state
   \<and> rotor_ramp_output (fst (rsc_output_f32 example_pid ROTOR_CONTROL_ACTIVE 6000 cruise_state)) = 1
   \<and> rotor_runup_output (fst (rsc_output_f32 example_pid ROTOR_CONTROL_ACTIVE 6000 cruise_state)) = 1
   \<and> control_output (fst (rsc_output_f32 example_pid ROTOR_CONTROL_ACTIVE 6000 cruise_state)) = 3 / 4
   \<and> 0 \<le> control_output (fst (rsc_output_f32 example_pid ROTOR_CONTROL_ACTIVE 6000 cruise_state))
   \<and> control_output (fst (rsc_output_f32 example_pid ROTOR_CONTROL_ACTIVE 6000 cruise_state)) \<le> 1"
proof -
  have pre: "0 \<le> rotor_ramp_output cruise_state" "rotor_ramp_output cruise_state \<le> 1"
    "0 \<le> rotor_runup_output cruise_state" "rotor_runup_output cruise_state \<le> 1"
    "0 \<le> control_output cruise_state" "control_output cruise_state \<le> 1"
    and cfg: "speed_config_in_range cruise_state" "is_binary32 (idle_output cruise_state)"
       "\<not> open_loop_tick ROTOR_CONTROL_ACTIVE cruise_state"
    by (simp_all add: cruise_state_def rsc_rest_fields speed_config_in_range_def
        open_loop_tick_def is_binary32_def binary32_dyadic_values)
  show ?thesis
    using running_state_stays_in_unit_interval
      [OF pre, of example_pid ROTOR_CONTROL_ACTIVE 6000] pre cfg cruise_tick_f32_values
    by simp
qed

subsection \<open>The value written to the output channel\<close>




subsection \<open>The Stop command\<close>

text \<open>
  C3, as the claim states it, fails: with a positive slew rate the zero that the Stop case
  assigns is pulled back into the slew window around the previous output. The controller
  below commanded full output and has a slew rate of 100 percent per second; one Stop tick
  of one millisecond leaves \<open>control_output\<close> at 0.999.
\<close>

theorem stop_not_zero_under_slew:
  "control_output (fst (rsc_output example_pid ROTOR_CONTROL_STOP 1000
      (rsc_rest\<lparr>control_output := 1, power_slewrate := 100\<rparr>))) = 999 / 1000
   \<and> control_output (fst (rsc_output example_pid ROTOR_CONTROL_STOP 1000
      (rsc_rest\<lparr>control_output := 1, power_slewrate := 100\<rparr>))) \<noteq> 0"
  by (simp add: rsc_output_control_output output_switch_control_output elapsed_time_def
      constrain_float_def rsc_rest_fields)

text \<open>
  C3, amended: for every prior state and configuration, one call \<open>output(Stop)\<close> leaves
  \<open>control_output\<close> equal to 0 when no slew rate is configured
  (\<open>power_slewrate = 0\<close>); with a positive slew rate it leaves 0 clamped into the
  window of half-width \<open>dt * power_slewrate * 0.01\<close> around the previous output.
\<close>

theorem stop_control_output_slewed:
  "control_output (fst (rsc_output pid ROTOR_CONTROL_STOP now s)) =
     (if power_slewrate s = 0 then 0
      else constrain_float 0
             (control_output s - elapsed_time now s * real (unat (power_slewrate s)) * (1 / 100))
             (control_output s + elapsed_time now s * real (unat (power_slewrate s)) * (1 / 100)))"
  by (simp add: rsc_output_control_output output_switch_control_output word_greater_zero_iff)

subsection \<open>The governor deadband\<close>



subsection \<open>The hysteresis of run-up completion\<close>

text \<open>
  C5: over every run of ticks and setter calls, in every control mode, once
  \<open>runup_complete\<close> is true it is true after the run as long as every tick of the run
  left \<open>rotor_runup_output\<close> above \<open>critical_speed\<close>, whatever the two ramps did
  otherwise; in a mode other than disabled a tick that starts with the flag set ends with
  it set exactly when it leaves \<open>rotor_runup_output\<close> above \<open>critical_speed\<close>;
  and neither setter changes the flag.
\<close>

theorem runup_complete_hysteresis:
  assumes "runup_complete s"
    and "\<forall>k<length es. is_tick (es ! k) \<longrightarrow>
           critical_speed s < rotor_runup_output (run_events pid (take (Suc k) es) s)"
  shows "runup_complete (run_events pid es s)
    \<and> (control_mode s \<noteq> ROTOR_CONTROL_MODE_DISABLED \<longrightarrow>
         (runup_complete (fst (rsc_output pid st now s))
          \<longleftrightarrow> critical_speed s < rotor_runup_output (fst (rsc_output pid st now s))))
    \<and> runup_complete (set_power_output_range lo hi negc slew s) = runup_complete s
    \<and> runup_complete (set_gov_enable enabled rpm deadband feedback s) = runup_complete s"
  using run_events_keeps_runup_complete [OF assms] tick_runup_complete_iff [OF assms(1)]
  by (simp add: set_power_output_range_def set_gov_enable_def)

theorem runup_complete_hysteresis_witness:
  "runup_complete complete_state
   \<and> rotor_runup_output (run_events example_pid (take 1 stop_then_idle) complete_state) = 19 / 20
   \<and> rotor_ramp_output (run_events example_pid stop_then_idle complete_state) = 0
   \<and> rotor_runup_output (run_events example_pid stop_then_idle complete_state) = 9 / 10
   \<and> critical_speed complete_state = 1 / 2
   \<and> runup_complete (run_events example_pid stop_then_idle complete_state)"
proof -
  let ?s1 = "fst (rsc_output example_pid ROTOR_CONTROL_STOP 101000 complete_state)"
  let ?s2 = "set_gov_enable True 1500 50 1400 ?s1"
  let ?s3 = "fst (rsc_output example_pid ROTOR_CONTROL_IDLE 201000 ?s2)"
  have s0: "runup_complete complete_state" "critical_speed complete_state = 1 / 2"
    by (simp_all add: complete_state_def rsc_rest_fields)
  have s1: "rotor_runup_output ?s1 = 19 / 20" "rotor_ramp_output ?s1 = 0" "runup_time ?s1 = 2"
    "ramp_time ?s1 = 2" "last_update_us ?s1 = 101000"
    by (simp_all add: rsc_output_estimators rsc_output_frame update_rotor_runup_fields
        update_rotor_ramp_eq elapsed_time_def complete_state_def rsc_rest_fields)
  have s2: "rotor_runup_output ?s2 = 19 / 20" "rotor_ramp_output ?s2 = 0" "runup_time ?s2 = 2"
    "ramp_time ?s2 = 2" "last_update_us ?s2 = 101000"
    by (simp_all add: set_gov_enable_def s1)
  have s3: "rotor_runup_output ?s3 = 9 / 10" "rotor_ramp_output ?s3 = 0"
    by (simp_all add: rsc_output_estimators update_rotor_runup_fields update_rotor_ramp_eq
        elapsed_time_def s2)
  have r1: "run_events example_pid (take (Suc 0) stop_then_idle) complete_state = ?s1"
    by (simp add: run_events_def stop_then_idle_def)
  have r3: "run_events example_pid stop_then_idle complete_state = ?s3"
    by (simp add: run_events_def stop_then_idle_def)
  have hyp: "\<forall>k<length stop_then_idle. is_tick (stop_then_idle ! k) \<longrightarrow>
      critical_speed complete_state
        < rotor_runup_output (run_events example_pid (take (Suc k) stop_then_idle) complete_state)"
  proof (intro allI impI)
    fix k
    assume "k < length stop_then_idle" and "is_tick (stop_then_idle ! k)"
    then have "k = 0 \<or> k = 2"
      by (cases k; simp add: stop_then_idle_def; rename_tac j; case_tac j; simp)
    then show "critical_speed complete_state
        < rotor_runup_output (run_events example_pid (take (Suc k) stop_then_idle) complete_state)"
    proof
      assume "k = 0"
      then show ?thesis by (simp add: r1 s1 s0)
    next
      assume "k = 2"
      then have "take (Suc k) stop_then_idle = stop_then_idle"
        by (simp add: stop_then_idle_def)
      then show ?thesis by (simp add: r3 s3 s0)
    qed
  qed
  show ?thesis
    using runup_complete_hysteresis [OF s0(1) hyp] r1 r3 s0 s1 s3 by simp
qed

subsection \<open>The sanity checks of the two times\<close>

text \<open>
  C6: the sanity check of \<open>update_rotor_ramp\<close> leaves \<open>ramp_time \<ge> 1\<close>, the one of
  \<open>update_rotor_runup\<close> leaves \<open>runup_time \<ge> 1\<close> and \<open>runup_time \<ge> ramp_time\<close>;
  the two estimators divide by these coerced values, and after every tick the stored
  times satisfy \<open>1 \<le> ramp_time \<le> runup_time\<close>, whatever values were configured.
\<close>

theorem times_coerced_before_division:
  "1 \<le> ramp_time (sanity_check_ramp_time s)
   \<and> 1 \<le> runup_time (sanity_check_runup_time s)
   \<and> ramp_time (sanity_check_runup_time s) \<le> runup_time (sanity_check_runup_time s)
   \<and> rotor_ramp_output (update_rotor_ramp t dt s) =
       (if rotor_ramp_output s < t
        then min t (max (rotor_ramp_output s) (rotor_runup_output s)
                    + dt / real_of_int (ramp_time (sanity_check_ramp_time s)))
        else t)
   \<and> rotor_runup_output (update_rotor_runup dt s) =
       (if rotor_runup_output s < rotor_ramp_output s
        then min (rotor_ramp_output s)
               (rotor_runup_output s + dt / real_of_int (runup_time (sanity_check_runup_time s)))
        else max (rotor_ramp_output s)
               (rotor_runup_output s - dt / real_of_int (runup_time (sanity_check_runup_time s))))
   \<and> 1 \<le> ramp_time (fst (rsc_output pid st now s))
   \<and> 1 \<le> runup_time (fst (rsc_output pid st now s))
   \<and> ramp_time (fst (rsc_output pid st now s)) \<le> runup_time (fst (rsc_output pid st now s))"
proof -
  have a: "1 \<le> ramp_time (sanity_check_ramp_time s)"
    by (simp add: sanity_check_ramp_time_eq)
  have b: "1 \<le> runup_time (sanity_check_runup_time s)
           \<and> ramp_time (sanity_check_runup_time s) \<le> runup_time (sanity_check_runup_time s)"
    by (simp add: sanity_check_runup_time_eq max_def)
  have c: "rotor_ramp_output (update_rotor_ramp t dt s) =
       (if rotor_ramp_output s < t
        then min t (max (rotor_ramp_output s) (rotor_runup_output s)
                    + dt / real_of_int (ramp_time (sanity_check_ramp_time s)))
        else t)"
    by (simp add: update_rotor_ramp_eq sanity_check_ramp_time_eq)
  have rt: "runup_time (update_rotor_runup dt s) = runup_time (sanity_check_runup_time s)"
    by (simp add: update_rotor_runup_fields(1) sanity_check_runup_time_eq)
  have d: "rotor_runup_output (update_rotor_runup dt s) =
       (if rotor_runup_output s < rotor_ramp_output s
        then min (rotor_ramp_output s)
               (rotor_runup_output s + dt / real_of_int (runup_time (sanity_check_runup_time s)))
        else max (rotor_ramp_output s)
               (rotor_runup_output s - dt / real_of_int (runup_time (sanity_check_runup_time s))))"
    by (subst update_rotor_runup_fields(2)) (simp only: rt)
  have e: "1 \<le> ramp_time (fst (rsc_output pid st now s))"
    by (simp add: rsc_output_estimators(2))
  have f: "1 \<le> runup_time (fst (rsc_output pid st now s))"
    unfolding rsc_output_estimators(4) by (rule runup_time_ge_one)
  have g: "ramp_time (fst (rsc_output pid st now s)) \<le> runup_time (fst (rsc_output pid st now s))"
    unfolding rsc_output_estimators(4) rsc_output_estimators(2)
    by (simp add: update_rotor_runup_fields(1) update_rotor_ramp_eq max_def)
  show ?thesis using a b c d e f g by blast
qed

subsection \<open>The closed-loop governor calculator\<close>

text \<open>
  C7: without a PID controller the closed-loop calculator returns the open-loop
  calculator's result and leaves the object as it is. With a PID controller and the
  governor enabled it feeds the scaled RPM error to the PID and returns the PID output
  clamped to [0,1], with no open-loop term added. With a PID controller and the governor
  disabled it feeds zero to the PID and returns 0.
\<close>

theorem closed_loop_calculator_cases:
  "(pid_rotor_gov s = None \<longrightarrow>
      calc_closed_loop_power_control_output pid s = (calc_open_loop_power_control_output s, s))
   \<and> (\<forall>p. pid_rotor_gov s = Some p \<and> gov_enabled s \<longrightarrow>
        (let pid_input = (rotor_ramp_output s * real_of_int (sint (governor_rpm_setpoint s))
                            - rpm_feedback s) / 100;
             r = get_pid pid (set_input_filter_all pid pid_input p)
         in calc_closed_loop_power_control_output pid s
              = (constrain_float (fst r) 0 1, s\<lparr>pid_rotor_gov := Some (snd r)\<rparr>)
            \<and> 0 \<le> fst (calc_closed_loop_power_control_output pid s)
            \<and> fst (calc_closed_loop_power_control_output pid s) \<le> 1))
   \<and> (\<forall>p. pid_rotor_gov s = Some p \<and> \<not> gov_enabled s \<longrightarrow>
        calc_closed_loop_power_control_output pid s
          = (0, s\<lparr>pid_rotor_gov := Some (set_input_filter_all pid 0 p)\<rparr>))"
  by (auto simp add: calc_closed_loop_power_control_output_def Let_def constrain_float_def
      split: prod.splits)

theorem closed_loop_calculator_cases_witness:
  "pid_rotor_gov rsc_rest = None
   \<and> calc_closed_loop_power_control_output example_pid rsc_rest = (1 / 10, rsc_rest)
   \<and> pid_rotor_gov gov_state = Some 3 \<and> gov_enabled gov_state
   \<and> calc_closed_loop_power_control_output example_pid gov_state
        = (1 / 10, gov_state\<lparr>pid_rotor_gov := Some (1 / 5)\<rparr>)
   \<and> pid_rotor_gov (gov_state\<lparr>rpm_feedback := 1000\<rparr>) = Some 3
   \<and> calc_closed_loop_power_control_output example_pid (gov_state\<lparr>rpm_feedback := 1000\<rparr>)
        = (1, gov_state\<lparr>rpm_feedback := 1000, pid_rotor_gov := Some 5\<rparr>)
   \<and> pid_rotor_gov (gov_state\<lparr>gov_enabled := False\<rparr>) = Some 3
   \<and> \<not> gov_enabled (gov_state\<lparr>gov_enabled := False\<rparr>)
   \<and> calc_closed_loop_power_control_output example_pid (gov_state\<lparr>gov_enabled := False\<rparr>)
        = (0, gov_state\<lparr>gov_enabled := False, pid_rotor_gov := Some 0\<rparr>)"
  using closed_loop_calculator_cases [of rsc_rest example_pid]
    closed_loop_calculator_cases [of gov_state example_pid]
    closed_loop_calculator_cases [of "gov_state\<lparr>rpm_feedback := 1000\<rparr>" example_pid]
    closed_loop_calculator_cases [of "gov_state\<lparr>gov_enabled := False\<rparr>" example_pid]
  by (simp add: gov_state_def rsc_rest_fields example_pid_def constrain_float_def
      calc_open_loop_power_control_output_def Let_def)

subsection \<open>The ramp under repeated Active ticks\<close>




subsection \<open>A critical speed of full speed or more\<close>

text \<open>
  C9: in every control mode other than disabled, when \<open>critical_speed \<ge> 1\<close> the flag
  \<open>runup_complete\<close> is false after every call of \<open>output\<close>: the run-up estimate
  never exceeds 1, so the critical-speed check that closes \<open>update_rotor_runup\<close> clears
  whatever the both-ramps check has set. The run-up estimate is taken within its range
  (\<open>rotor_runup_output \<le> 1\<close> before the call), which every tick preserves.
\<close>

theorem no_completion_when_critical_speed_at_least_one:
  assumes "control_mode s \<noteq> ROTOR_CONTROL_MODE_DISABLED"
    and "1 \<le> critical_speed s"
    and "rotor_runup_output s \<le> 1"
  shows "\<not> runup_complete (fst (rsc_output pid st now s))"
proof -
  let ?rp = "update_rotor_ramp (if st = ROTOR_CONTROL_ACTIVE then 1 else 0) (elapsed_time now s) s"
  have "rotor_runup_output (update_rotor_runup (elapsed_time now s) ?rp) \<le> 1"
    using rsc_output_runup_le_one [OF assms(3), of pid st now]
    by (simp only: rsc_output_estimators(3))
  then have "rotor_runup_output (update_rotor_runup (elapsed_time now s) ?rp) \<le> critical_speed ?rp"
    using assms(2) by (simp add: update_rotor_ramp_eq)
  then show ?thesis
    unfolding rsc_output_estimators(5)
    by (subst update_rotor_runup_fields(3)) (simp add: update_rotor_ramp_eq assms(1))
qed

theorem no_completion_when_critical_speed_at_least_one_witness:
  "control_mode critical_one_state \<noteq> ROTOR_CONTROL_MODE_DISABLED
   \<and> 1 \<le> critical_speed critical_one_state
   \<and> rotor_runup_output critical_one_state \<le> 1
   \<and> rotor_runup_output (fst (rsc_output example_pid ROTOR_CONTROL_ACTIVE 1000 critical_one_state)) = 1
   \<and> \<not> runup_complete (fst (rsc_output example_pid ROTOR_CONTROL_ACTIVE 1000 critical_one_state))"
  using no_completion_when_critical_speed_at_least_one
    [of critical_one_state example_pid ROTOR_CONTROL_ACTIVE 1000]
  by (simp add: critical_one_state_def rsc_rest_fields rsc_output_estimators(3)
      update_rotor_runup_fields update_rotor_ramp_eq elapsed_time_def)

subsection \<open>The disabled mode\<close>

text \<open>
  C10: in disabled mode a call \<open>output(Active)\<close> leaves \<open>control_output\<close>
  unchanged and writes nothing to the output channel, while the timestamp, both
  estimators and \<open>runup_complete\<close> are updated as in any other mode.
\<close>

theorem disabled_active_keeps_control_output:
  assumes "control_mode s = ROTOR_CONTROL_MODE_DISABLED"
  shows "control_output (fst (rsc_output pid ROTOR_CONTROL_ACTIVE now s)) = control_output s
    \<and> snd (rsc_output pid ROTOR_CONTROL_ACTIVE now s) = Inr None
    \<and> runup_complete (fst (rsc_output pid ROTOR_CONTROL_ACTIVE now s))
    \<and> last_update_us (fst (rsc_output pid ROTOR_CONTROL_ACTIVE now s)) = now
    \<and> rotor_ramp_output (fst (rsc_output pid ROTOR_CONTROL_ACTIVE now s))
        = rotor_ramp_output (update_rotor_ramp 1 (elapsed_time now s) s)
    \<and> rotor_runup_output (fst (rsc_output pid ROTOR_CONTROL_ACTIVE now s))
        = rotor_runup_output (update_rotor_runup (elapsed_time now s)
            (update_rotor_ramp 1 (elapsed_time now s) s))"
proof -
  have sw: "control_output (output_switch pid ROTOR_CONTROL_ACTIVE (elapsed_time now s)
              (control_output s) (s\<lparr>last_update_us := now\<rparr>)) = control_output s"
    using assms by (simp add: output_switch_active_control_output)
  have c: "control_output (fst (rsc_output pid ROTOR_CONTROL_ACTIVE now s)) = control_output s"
    unfolding rsc_output_control_output sw
    using max_delta_nonneg [of now s "power_slewrate s"]
    by (simp add: constrain_float_self)
  have w: "snd (rsc_output pid ROTOR_CONTROL_ACTIVE now s) = Inr None"
    using assms by (simp add: rsc_output_snd write_rsc_def)
  have r: "runup_complete (fst (rsc_output pid ROTOR_CONTROL_ACTIVE now s))"
    unfolding rsc_output_estimators(5)
    using assms by (subst update_rotor_runup_fields(3)) (simp add: update_rotor_ramp_eq)
  show ?thesis
    using c w r by (simp add: rsc_output_frame rsc_output_estimators)
qed

theorem disabled_active_keeps_control_output_witness:
  "control_mode disabled_state = ROTOR_CONTROL_MODE_DISABLED
   \<and> control_output (fst (rsc_output example_pid ROTOR_CONTROL_ACTIVE 1000 disabled_state)) = 3 / 10
   \<and> snd (rsc_output example_pid ROTOR_CONTROL_ACTIVE 1000 disabled_state) = Inr None
   \<and> runup_complete (fst (rsc_output example_pid ROTOR_CONTROL_ACTIVE 1000 disabled_state))
   \<and> last_update_us (fst (rsc_output example_pid ROTOR_CONTROL_ACTIVE 1000 disabled_state)) = 1000
   \<and> rotor_ramp_output (fst (rsc_output example_pid ROTOR_CONTROL_ACTIVE 1000 disabled_state))
        = 1 / 2000
   \<and> rotor_runup_output (fst (rsc_output example_pid ROTOR_CONTROL_ACTIVE 1000 disabled_state))
        = 1 / 2000"
  using disabled_active_keeps_control_output [of disabled_state example_pid 1000]
  by (simp add: disabled_state_def rsc_rest_fields update_rotor_runup_fields update_rotor_ramp_eq
      elapsed_time_def)

end
